theory Spec2Isabelle
  imports Complex_Main "HOL-Library.Sublist"
begin

section \<open>JavaScript numeric helpers\<close>

text \<open>
  The energy pipeline of \<^verbatim>\<open>src/server.js\<close> is modelled over exact numbers: a JavaScript
  number that the code has passed through \<^verbatim>\<open>Math.round\<close> is an \<^typ>\<open>int\<close>, every other
  finite number is a \<^typ>\<open>real\<close>. \<^verbatim>\<open>Math.round(x)\<close> is the integer nearest to \<open>x\<close>, a tie
  going towards plus infinity.
\<close>

definition Math_round :: "real \<Rightarrow> int" where
  "Math_round x = \<lfloor>x + 1 / 2\<rfloor>"

section \<open>Telemetry normalisation (fetchPowerwallData, lines 1071-1098)\<close>

text \<open>
  \<^verbatim>\<open>
  let selfPoweredPercent = 0;
  if (loadPower > 0) {
    const gridSupplied = Math.max(0, gridPower);
    selfPoweredPercent = Math.round(((loadPower - gridSupplied) / loadPower) * 100);
    selfPoweredPercent = Math.max(0, Math.min(100, selfPoweredPercent));
  }
  \<close>
  \<open>gridPower\<close> and \<open>loadPower\<close> are the rounded instantaneous powers.
\<close>

definition selfPoweredPercent :: "int \<Rightarrow> int \<Rightarrow> int" where
  "selfPoweredPercent gridPower loadPower =
     (if loadPower > 0 then
        (let gridSupplied = max 0 gridPower;
             p = Math_round ((real_of_int (loadPower - gridSupplied) / real_of_int loadPower) * 100)
         in max 0 (min 100 p))
      else 0)"

text \<open>
  \<^verbatim>\<open>
  if (batteryPower > 10) { batteryStatus = 'discharging'; }
  else if (batteryPower < -10) { batteryStatus = 'charging'; }
  else { batteryStatus = 'standby'; }
  \<close>
\<close>

definition batteryStatus :: "int \<Rightarrow> string" where
  "batteryStatus batteryPower =
     (if batteryPower > 10 then ''discharging''
      else if batteryPower < - 10 then ''charging''
      else ''standby'')"

section \<open>Persistent store: the daily\_baselines table (lines 79-95)\<close>

text \<open>
  The cumulative energy counters read from the gateway's aggregates
  (\<^verbatim>\<open>agg.solar.energy_exported\<close>, \<^verbatim>\<open>agg.battery.energy_exported\<close>, ...), under the
  names the code gives them at lines 1101-1106.
\<close>

record cumulative =
  cumSolar :: real
  cumBatteryOut :: real
  cumBatteryIn :: real
  cumGridIn :: real
  cumGridOut :: real
  cumLoad :: real

text \<open>
  A row of \<^verbatim>\<open>daily_baselines\<close>. The six energy columns are declared \<^verbatim>\<open>REAL\<close> without
  \<^verbatim>\<open>NOT NULL\<close>, so a column reads back as a number or as \<^verbatim>\<open>null\<close> (\<open>None\<close>). The table is
  the list of its rows in insertion order; \<^verbatim>\<open>date TEXT PRIMARY KEY\<close> is the invariant
  \<open>distinct (map date tbl)\<close>.
\<close>

record baseline_row =
  date :: string
  solar_exported_wh :: "real option"
  battery_exported_wh :: "real option"
  battery_imported_wh :: "real option"
  grid_imported_wh :: "real option"
  grid_exported_wh :: "real option"
  load_imported_wh :: "real option"

datatype error = SqliteError | TypeError | WriteFileError

text \<open>\<^verbatim>\<open>getBaseline = db.prepare(`SELECT * FROM daily_baselines WHERE date = ?`)\<close>,
  \<^verbatim>\<open>getBaseline.get(key)\<close>: the first matching row, or \<^verbatim>\<open>undefined\<close>.\<close>

definition getBaseline_get :: "string \<Rightarrow> baseline_row list \<Rightarrow> baseline_row option" where
  "getBaseline_get key tbl = find (\<lambda>r. date r = key) tbl"

text \<open>
  \<^verbatim>\<open>insertBaseline = db.prepare(`INSERT OR REPLACE INTO daily_baselines (...) VALUES (?, ...)`)\<close>:
  every row in conflict on the primary key is deleted and the new row (\<open>baseline_values\<close>,
  the bound \<^verbatim>\<open>VALUES\<close>) is inserted. The
  statement can throw (the flag \<open>db_ok\<close> is the store accepting the write); the table is
  then as before.
\<close>

definition baseline_values :: "string \<Rightarrow> cumulative \<Rightarrow> baseline_row" where
  "baseline_values key c =
     \<lparr>date = key,
      solar_exported_wh = Some (cumSolar c),
      battery_exported_wh = Some (cumBatteryOut c),
      battery_imported_wh = Some (cumBatteryIn c),
      grid_imported_wh = Some (cumGridIn c),
      grid_exported_wh = Some (cumGridOut c),
      load_imported_wh = Some (cumLoad c)\<rparr>"

definition insertBaseline_run ::
  "bool \<Rightarrow> string \<Rightarrow> cumulative \<Rightarrow> baseline_row list \<Rightarrow> error + baseline_row list" where
  "insertBaseline_run db_ok key c tbl =
     (if db_ok then Inr (filter (\<lambda>r. date r \<noteq> key) tbl @ [baseline_values key c])
      else Inl SqliteError)"

section \<open>Baseline tracker (fetchPowerwallData, lines 1108-1120)\<close>

text \<open>
  \<^verbatim>\<open>
  let baseline = getBaseline.get(todayKey);
  if (!baseline) {
    insertBaseline.run(todayKey, cumSolar, cumBatteryOut, cumBatteryIn, cumGridIn, cumGridOut, cumLoad);
    baseline = getBaseline.get(todayKey);
  }
  \<close>
  The result is the baseline row in use and the table after the step, or the error thrown.
  Were the second read to find nothing, the field access that follows would throw a
  \<^verbatim>\<open>TypeError\<close>.
\<close>

definition track_baseline ::
  "bool \<Rightarrow> string \<Rightarrow> cumulative \<Rightarrow> baseline_row list
     \<Rightarrow> error + (baseline_row \<times> baseline_row list)" where
  "track_baseline db_ok todayKey c tbl =
     (case getBaseline_get todayKey tbl of
        Some baseline \<Rightarrow> Inr (baseline, tbl)
      | None \<Rightarrow>
          (case insertBaseline_run db_ok todayKey c tbl of
             Inl e \<Rightarrow> Inl e
           | Inr tbl' \<Rightarrow>
               (case getBaseline_get todayKey tbl' of
                  Some baseline \<Rightarrow> Inr (baseline, tbl')
                | None \<Rightarrow> Inl TypeError)))"

text \<open>\<^verbatim>\<open>(v || 0)\<close> on a column value: \<^verbatim>\<open>null\<close> and \<open>0\<close> are falsy.\<close>

definition or_zero :: "real option \<Rightarrow> real" where
  "or_zero v = (case v of None \<Rightarrow> 0 | Some x \<Rightarrow> (if x = 0 then 0 else x))"

record day_delta =
  daySolar :: real
  dayBattery :: real
  dayGrid :: real
  dayLoad :: real

text \<open>
  \<^verbatim>\<open>
  const daySolar = Math.max(0, cumSolar - (baseline.solar_exported_wh || 0));
  const dayBattery = Math.max(0, cumBatteryOut - (baseline.battery_exported_wh || 0));
  const dayGrid = Math.max(0, cumGridIn - (baseline.grid_imported_wh || 0));
  const dayLoad = Math.max(0, cumLoad - (baseline.load_imported_wh || 0));
  \<close>
\<close>

definition dayDelta :: "cumulative \<Rightarrow> baseline_row \<Rightarrow> day_delta" where
  "dayDelta c baseline =
     \<lparr>daySolar = max 0 (cumSolar c - or_zero (solar_exported_wh baseline)),
      dayBattery = max 0 (cumBatteryOut c - or_zero (battery_exported_wh baseline)),
      dayGrid = max 0 (cumGridIn c - or_zero (grid_imported_wh baseline)),
      dayLoad = max 0 (cumLoad c - or_zero (load_imported_wh baseline))\<rparr>"

text \<open>
  Successive polls under one date key. Each poll is the store's answer to a write
  (\<open>db_ok\<close>) and the counters read; a poll whose baseline step throws yields no reading
  (\<^verbatim>\<open>fetchPowerwallData\<close> returns \<^verbatim>\<open>null\<close>) and leaves the table as it was.
  \<open>track_baseline_seq\<close> lists the outcome of the baseline step of every poll,
  \<open>dayDelta_seq\<close> the day-deltas of the polls that produced a reading.
\<close>

fun track_baseline_seq ::
  "string \<Rightarrow> (bool \<times> cumulative) list \<Rightarrow> baseline_row list
     \<Rightarrow> (error + baseline_row) list \<times> baseline_row list" where
  "track_baseline_seq key [] tbl = ([], tbl)"
| "track_baseline_seq key ((db_ok, c) # polls) tbl =
     (case track_baseline db_ok key c tbl of
        Inl e \<Rightarrow>
          (case track_baseline_seq key polls tbl of (rs, tbl'') \<Rightarrow> (Inl e # rs, tbl''))
      | Inr (baseline, tbl') \<Rightarrow>
          (case track_baseline_seq key polls tbl' of (rs, tbl'') \<Rightarrow> (Inr baseline # rs, tbl'')))"

fun dayDelta_seq ::
  "string \<Rightarrow> (bool \<times> cumulative) list \<Rightarrow> baseline_row list \<Rightarrow> day_delta list" where
  "dayDelta_seq key [] tbl = []"
| "dayDelta_seq key ((db_ok, c) # polls) tbl =
     (case track_baseline db_ok key c tbl of
        Inl e \<Rightarrow> dayDelta_seq key polls tbl
      | Inr (baseline, tbl') \<Rightarrow> dayDelta c baseline # dayDelta_seq key polls tbl')"

section \<open>Metrics deriver (fetchPowerwallData, lines 1122-1134)\<close>

text \<open>
  \<^verbatim>\<open>Number.prototype.toFixed(fractionDigits)\<close> as ECMAScript defines it, for a finite
  number: the sign is split off; a magnitude of at least \<open>10^21\<close> is rendered by the
  number-to-string conversion (the parameter \<open>toStr\<close>, which this development leaves
  open); otherwise \<open>n\<close> is the integer for which \<open>n / 10^f - x\<close> is closest to zero (the
  larger one on a tie), its decimal digits are padded with zeros on the left to at least
  \<open>f + 1\<close> digits, and the point is put before the last \<open>f\<close> digits.
\<close>

definition digit_char :: "nat \<Rightarrow> char" where
  "digit_char d = ''0123456789'' ! d"

fun dec_digits :: "nat \<Rightarrow> string" where
  "dec_digits n =
     (if n < 10 then [digit_char n] else dec_digits (n div 10) @ [digit_char (n mod 10)])"

declare dec_digits.simps [simp del]

definition toFixed :: "(real \<Rightarrow> string) \<Rightarrow> nat \<Rightarrow> real \<Rightarrow> string" where
  "toFixed toStr f x0 =
     (let s = (if x0 < 0 then ''-'' else '''');
          x = (if x0 < 0 then - x0 else x0)
      in if x \<ge> 10 ^ 21 then s @ toStr x
         else
           (let n = nat \<lfloor>x * 10 ^ f + 1 / 2\<rfloor>;
                m = dec_digits n;
                m = (if f \<noteq> 0 \<and> length m \<le> f
                     then replicate (f + 1 - length m) (CHR ''0'') @ m else m)
            in if f \<noteq> 0
               then s @ take (length m - f) m @ ''.'' @ drop (length m - f) m
               else s @ m))"

text \<open>
  \<^verbatim>\<open>
  let dailySelfPowered = selfPoweredPercent;
  let dailyBreakdown = { solarPct: 0, batteryPct: 0, gridPct: 0,
                         solarKwh: 0, batteryKwh: 0, gridKwh: 0, loadKwh: 0 };
  if (dayLoad > 0) {
    dailyBreakdown.solarPct = Math.round((daySolar / dayLoad) * 100);
    dailyBreakdown.batteryPct = Math.round((dayBattery / dayLoad) * 100);
    dailyBreakdown.gridPct = Math.round((dayGrid / dayLoad) * 100);
    dailyBreakdown.solarKwh = (daySolar / 1e6).toFixed(1);
    dailyBreakdown.batteryKwh = (dayBattery / 1e6).toFixed(1);
    dailyBreakdown.gridKwh = (dayGrid / 1e6).toFixed(1);
    dailyBreakdown.loadKwh = (dayLoad / 1e6).toFixed(1);
    dailySelfPowered = Math.round(((daySolar + dayBattery) / dayLoad) * 100);
    dailySelfPowered = Math.max(0, Math.min(100, dailySelfPowered));
  }
  \<close>
  A kWh field holds the number 0 until the branch replaces it by a string.
\<close>

datatype kwh = KwhNumber real | KwhText string

record daily_breakdown =
  solarPct :: int
  batteryPct :: int
  gridPct :: int
  solarKwh :: kwh
  batteryKwh :: kwh
  gridKwh :: kwh
  loadKwh :: kwh

definition dailyBreakdown :: "(real \<Rightarrow> string) \<Rightarrow> day_delta \<Rightarrow> daily_breakdown" where
  "dailyBreakdown toStr d =
     (if dayLoad d > 0 then
        \<lparr>solarPct = Math_round ((daySolar d / dayLoad d) * 100),
         batteryPct = Math_round ((dayBattery d / dayLoad d) * 100),
         gridPct = Math_round ((dayGrid d / dayLoad d) * 100),
         solarKwh = KwhText (toFixed toStr 1 (daySolar d / 1000000)),
         batteryKwh = KwhText (toFixed toStr 1 (dayBattery d / 1000000)),
         gridKwh = KwhText (toFixed toStr 1 (dayGrid d / 1000000)),
         loadKwh = KwhText (toFixed toStr 1 (dayLoad d / 1000000))\<rparr>
      else
        \<lparr>solarPct = 0, batteryPct = 0, gridPct = 0,
         solarKwh = KwhNumber 0, batteryKwh = KwhNumber 0, gridKwh = KwhNumber 0,
         loadKwh = KwhNumber 0\<rparr>)"

definition dailySelfPowered :: "int \<Rightarrow> day_delta \<Rightarrow> int" where
  "dailySelfPowered instantPct d =
     (if dayLoad d > 0
      then max 0 (min 100 (Math_round (((daySolar d + dayBattery d) / dayLoad d) * 100)))
      else instantPct)"

section \<open>Process state (module-level variables and the store)\<close>

text \<open>
  An ISO-8601 timestamp string (\<^verbatim>\<open>new Date().toISOString()\<close>) is modelled by the instant
  it denotes, in milliseconds since the epoch, which is what \<^verbatim>\<open>new Date(s).getTime()\<close>
  reads back from it.
\<close>

record alert =
  alert_id :: string
  alert_type :: string
  severity :: string
  title :: string
  message :: string
  alert_timestamp :: int

text \<open>
  The reading \<^verbatim>\<open>powerwallData\<close> built at lines 1154-1197, with the fields the pipeline
  reads again: the rounded powers, the state of energy, the battery status and the two
  derived values. Voltages, currents, the lifetime energy strings and the \<^verbatim>\<open>system\<close>
  block are copied from the gateway's answer into the reading and never read by the
  pipeline; they are left out.
\<close>

record reading =
  pw_timestamp :: int
  pw_grid_power :: int
  pw_battery_power :: int
  pw_battery_soe :: real
  pw_battery_status :: string
  pw_load_power :: int
  pw_solar_power :: int
  pw_selfPoweredPercent :: int
  pw_dailyBreakdown :: daily_breakdown

text \<open>An element of \<^verbatim>\<open>history\<close> (lines 1221-1228 and 1271-1278).\<close>

record history_entry =
  h_timestamp :: int
  h_grid :: int
  h_battery :: int
  h_solar :: int
  h_load :: int
  h_soe :: real

text \<open>A row of \<^verbatim>\<open>power_samples\<close> (lines 68-77), without its autoincrement id.\<close>

record sample =
  ts :: int
  solar_w :: int
  battery_w :: int
  grid_w :: int
  load_w :: int
  battery_soe :: real
  battery_status :: string

record grid_stats =
  grid_avg :: int
  grid_max :: int
  grid_min :: int
  samples :: nat

record power_stats =
  power_avg :: int
  power_max :: int
  power_min :: int
  total :: real

record soe_stats =
  avgSoe :: int
  maxSoe :: real
  minSoe :: real

record analytics_entry =
  hour :: int
  grid :: grid_stats
  solar :: power_stats
  load :: power_stats
  battery :: soe_stats

text \<open>\<^verbatim>\<open>settings.alerts\<close> (lines 140-147).\<close>

record alert_settings =
  batteryLow :: real
  batteryHigh :: real
  gridDown :: bool
  highLoad :: real
  highTemp :: real
  lowTemp :: real

text \<open>\<^verbatim>\<open>cachedData.temps\<close>: only \<^verbatim>\<open>inside.temp\<close> (a rounded value, line 982) is read.\<close>

record temps =
  inside_temp :: int

text \<open>The payload of a server-sent event, \<^verbatim>\<open>{ type, data }\<close>.\<close>

datatype event =
    Powerwall reading
  | Alert alert
  | Analytics analytics_entry
  | CodeUpdate string

datatype json_file = HISTORY_FILE | ANALYTICS_FILE | ALERTS_FILE

text \<open>
  The mutable state of the process: the module-level variables, the two SQLite tables and
  the JSON snapshot files. \<open>'c\<close> is the type of a subscriber (a response object). Two
  fields are observations rather than program variables: \<open>broadcasts\<close> lists the
  arguments of every call of \<^verbatim>\<open>broadcastUpdate\<close>, \<open>wire\<close> every write that a subscriber
  accepted.
\<close>

record 'c server =
  sseClients :: "'c list"
  alerts :: "alert list"
  history :: "history_entry list"
  analytics :: "analytics_entry list"
  cached_powerwall :: "reading option"
  lastUpdate_powerwall :: "int option"
  cached_temps :: "temps option"
  settings_alerts :: alert_settings
  daily_baselines :: "baseline_row list"
  power_samples :: "sample list"
  alerts_file :: "alert list"
  history_file :: "history_entry list"
  analytics_file :: "analytics_entry list"
  broadcasts :: "event list"
  wire :: "('c \<times> event) list"

text \<open>The gateway's answer to \<^verbatim>\<open>/api/meters/aggregates\<close>, as far as it is read.\<close>

record aggregates =
  solar_instant_power :: real
  battery_instant_power :: real
  load_instant_power :: real
  site_instant_power :: real
  energy :: cumulative

text \<open>
  What one run of a handler meets outside the process: whether a subscriber accepts a
  write, whether the file system and the store accept theirs, the gateway's answers (a
  rejected or timed-out request is \<open>False\<close> or \<open>None\<close>), the clock at each place where the
  handler reads it, the date key \<^verbatim>\<open>new Date().toISOString().slice(0, 10)\<close>, and the
  number-to-string conversion of template literals and of \<open>toFixed\<close>.
\<close>

record 'c env =
  write_ok :: "'c \<Rightarrow> bool"
  saveJSON_ok :: "json_file \<Rightarrow> bool"
  insertSample_ok :: bool
  insertBaseline_ok :: bool
  login_ok :: bool
  aggregates_res :: "aggregates option"
  soe_res :: "real option"
  clock_handler :: int
  clock_reading :: int
  clock_cutoff :: int
  clock_alerts :: int
  todayKey :: string
  number_to_string :: "real \<Rightarrow> string"

section \<open>Broadcast fan-out (broadcastUpdate, lines 204-212)\<close>

text \<open>
  \<^verbatim>\<open>
  function broadcastUpdate(data) {
    sseClients.forEach((client, index) => {
      try { client.write(`data: ${JSON.stringify(data)}\n\n`); }
      catch (error) { sseClients.splice(index, 1); }
    });
  }
  \<close>
  \<^verbatim>\<open>Array.prototype.forEach\<close> reads the length once, before the first call, and then visits
  the indices \<open>0, 1, ..., length - 1\<close> of the array as it is at that moment: an index that is
  no longer in the array is passed over. \<open>forEach_write w todo k cs written\<close> is the loop with
  \<open>todo\<close> indices left, the next one being \<open>k\<close>; \<open>cs\<close> is \<^verbatim>\<open>sseClients\<close>, \<open>written\<close> the
  subscribers written to so far, and \<open>w c\<close> says whether the write to \<open>c\<close> returns (it
  throws otherwise). \<^verbatim>\<open>splice(index, 1)\<close> removes the element at \<open>index\<close>.
\<close>

fun forEach_write ::
  "('c \<Rightarrow> bool) \<Rightarrow> nat \<Rightarrow> nat \<Rightarrow> 'c list \<Rightarrow> 'c list \<Rightarrow> 'c list \<times> 'c list" where
  "forEach_write w 0 k cs written = (cs, written)"
| "forEach_write w (Suc todo) k cs written =
     (if k < length cs then
        (if w (cs ! k) then forEach_write w todo (Suc k) cs (written @ [cs ! k])
         else forEach_write w todo (Suc k) (take k cs @ drop (Suc k) cs) written)
      else forEach_write w todo (Suc k) cs written)"

definition broadcastUpdate :: "'c env \<Rightarrow> event \<Rightarrow> 'c server \<Rightarrow> 'c server" where
  "broadcastUpdate env data st =
     (case forEach_write (write_ok env) (length (sseClients st)) 0 (sseClients st) [] of
        (clients, written) \<Rightarrow>
          st\<lparr>sseClients := clients,
             broadcasts := broadcasts st @ [data],
             wire := wire st @ map (\<lambda>c. (c, data)) written\<rparr>)"

section \<open>Alert engine (checkAlerts, lines 218-307)\<close>

text \<open>
  The candidates \<^verbatim>\<open>newAlerts\<close>, in the order in which lines 222-292 push them. A title
  starts with a pictograph and the temperature messages hold a degree sign; they are
  written as their UTF-8 bytes.
\<close>

definition newAlerts :: "'c env \<Rightarrow> alert_settings \<Rightarrow> reading \<Rightarrow> temps option \<Rightarrow> alert list" where
  "newAlerts env s powerwallData tempsData =
     (if pw_battery_soe powerwallData \<le> batteryLow s then
        [\<lparr>alert_id = ''battery-low'', alert_type = ''warning'', severity = ''high'',
          title = [CHR 0xF0, CHR 0x9F, CHR 0x94, CHR 0x8B] @ '' Battery Low'',
          message = ''Battery at '' @ number_to_string env (pw_battery_soe powerwallData)
                    @ ''% (threshold: '' @ number_to_string env (batteryLow s) @ ''%)'',
          alert_timestamp = clock_alerts env\<rparr>]
      else [])
     @ (if pw_battery_soe powerwallData \<ge> batteryHigh s then
        [\<lparr>alert_id = ''battery-high'', alert_type = ''info'', severity = ''low'',
          title = [CHR 0xF0, CHR 0x9F, CHR 0x94, CHR 0x8B] @ '' Battery Full'',
          message = ''Battery at '' @ number_to_string env (pw_battery_soe powerwallData)
                    @ ''% (threshold: '' @ number_to_string env (batteryHigh s) @ ''%)'',
          alert_timestamp = clock_alerts env\<rparr>]
      else [])
     @ (if gridDown s \<and> pw_grid_power powerwallData \<le> 0 then
        [\<lparr>alert_id = ''grid-down'', alert_type = ''error'', severity = ''critical'',
          title = [CHR 0xE2, CHR 0x9A, CHR 0xA1] @ '' Grid Down'',
          message = ''Grid power is off - running on battery/solar only'',
          alert_timestamp = clock_alerts env\<rparr>]
      else [])
     @ (if real_of_int (pw_load_power powerwallData) \<ge> highLoad s then
        [\<lparr>alert_id = ''high-load'', alert_type = ''warning'', severity = ''medium'',
          title = [CHR 0xF0, CHR 0x9F, CHR 0x93, CHR 0x8A] @ '' High Load'',
          message = ''Load at '' @ number_to_string env (real_of_int (pw_load_power powerwallData))
                    @ ''W (threshold: '' @ number_to_string env (highLoad s) @ ''W)'',
          alert_timestamp = clock_alerts env\<rparr>]
      else [])
     @ (case tempsData of
          None \<Rightarrow> []
        | Some t \<Rightarrow>
            (if real_of_int (inside_temp t) \<ge> highTemp s then
               [\<lparr>alert_id = ''high-temp'', alert_type = ''warning'', severity = ''high'',
                 title = [CHR 0xF0, CHR 0x9F, CHR 0x8C, CHR 0xA1, CHR 0xEF, CHR 0xB8, CHR 0x8F]
                         @ '' High Temperature'',
                 message = ''Inside temp at '' @ number_to_string env (real_of_int (inside_temp t))
                           @ [CHR 0xC2, CHR 0xB0] @ ''F (threshold: '' @ number_to_string env (highTemp s)
                           @ [CHR 0xC2, CHR 0xB0] @ ''F)'',
                 alert_timestamp = clock_alerts env\<rparr>]
             else [])
            @ (if real_of_int (inside_temp t) \<le> lowTemp s then
               [\<lparr>alert_id = ''low-temp'', alert_type = ''warning'', severity = ''medium'',
                 title = [CHR 0xF0, CHR 0x9F, CHR 0x8C, CHR 0xA1, CHR 0xEF, CHR 0xB8, CHR 0x8F]
                         @ '' Low Temperature'',
                 message = ''Inside temp at '' @ number_to_string env (real_of_int (inside_temp t))
                           @ [CHR 0xC2, CHR 0xB0] @ ''F (threshold: '' @ number_to_string env (lowTemp s)
                           @ [CHR 0xC2, CHR 0xB0] @ ''F)'',
                 alert_timestamp = clock_alerts env\<rparr>]
             else []))"

text \<open>
  \<^verbatim>\<open>
  newAlerts.forEach(alert => {
    if (!alerts.find(a => a.id === alert.id)) {
      alerts.push(alert);
      broadcastUpdate({ type: 'alert', data: alert });
    }
  });
  \<close>
\<close>

fun add_new_alerts :: "'c env \<Rightarrow> alert list \<Rightarrow> 'c server \<Rightarrow> 'c server" where
  "add_new_alerts env [] st = st"
| "add_new_alerts env (a # rest) st =
     add_new_alerts env rest
       (if find (\<lambda>x. alert_id x = alert_id a) (alerts st) = None
        then broadcastUpdate env (Alert a) (st\<lparr>alerts := alerts st @ [a]\<rparr>)
        else st)"

text \<open>\<^verbatim>\<open>xs.slice(-n)\<close>: the last \<open>n\<close> elements, all of them if there are fewer.\<close>

definition slice_last :: "nat \<Rightarrow> 'a list \<Rightarrow> 'a list" where
  "slice_last n xs = drop (length xs - n) xs"

text \<open>
  \<^verbatim>\<open>
  alerts = alerts.slice(-100);
  saveJSON(ALERTS_FILE, alerts);
  \<close>
  \<^verbatim>\<open>saveJSON\<close> is \<^verbatim>\<open>fs.writeFileSync\<close>, which throws when the file system refuses the
  write. A handler's result is the error that escaped, if any, and the state it leaves.
\<close>

definition checkAlerts ::
  "'c env \<Rightarrow> reading \<Rightarrow> temps option \<Rightarrow> 'c server \<Rightarrow> error option \<times> 'c server" where
  "checkAlerts env powerwallData tempsData st =
     (let st1 = add_new_alerts env (newAlerts env (settings_alerts st) powerwallData tempsData) st;
          st2 = st1\<lparr>alerts := slice_last 100 (alerts st1)\<rparr>
      in if saveJSON_ok env ALERTS_FILE then (None, st2\<lparr>alerts_file := alerts st2\<rparr>)
         else (Some WriteFileError, st2))"

text \<open>
  \<^verbatim>\<open>
  app.delete('/api/alerts/:id', (req, res) => {
    alerts = alerts.filter(a => a.id !== req.params.id);
    saveJSON(ALERTS_FILE, alerts);
    res.json({ success: true });
  });
  \<close>
\<close>

definition delete_api_alerts :: "'c env \<Rightarrow> string \<Rightarrow> 'c server \<Rightarrow> error option \<times> 'c server" where
  "delete_api_alerts env ident st =
     (let st1 = st\<lparr>alerts := filter (\<lambda>a. alert_id a \<noteq> ident) (alerts st)\<rparr>
      in if saveJSON_ok env ALERTS_FILE then (None, st1\<lparr>alerts_file := alerts st1\<rparr>)
         else (Some WriteFileError, st1))"

section \<open>Analytics roll-up (lines 313-370)\<close>




section \<open>Telemetry fetcher (fetchPowerwallData, lines 1030-1204)\<close>

text \<open>
  The login and the two primary reads are awaited in turn; a rejection of any of them, and
  any exception after them, is caught at line 1200 and the function returns \<^verbatim>\<open>null\<close>. The
  three secondary reads have a handler of their own and only feed the \<^verbatim>\<open>system\<close> block.
  The result is the reading, if any, and the \<^verbatim>\<open>daily_baselines\<close> table after the call.
\<close>

definition fetchPowerwallData ::
  "'c env \<Rightarrow> baseline_row list \<Rightarrow> reading option \<times> baseline_row list" where
  "fetchPowerwallData env tbl =
     (if \<not> login_ok env then (None, tbl)
      else case aggregates_res env of
        None \<Rightarrow> (None, tbl)
      | Some agg \<Rightarrow>
          (case soe_res env of
             None \<Rightarrow> (None, tbl)
           | Some soe \<Rightarrow>
               (let solarPower = Math_round (solar_instant_power agg);
                    batteryPower = Math_round (battery_instant_power agg);
                    loadPower = Math_round (load_instant_power agg);
                    gridPower = Math_round (site_instant_power agg)
                in case track_baseline (insertBaseline_ok env) (todayKey env) (energy agg) tbl of
                     Inl e \<Rightarrow> (None, tbl)
                   | Inr (baseline, tbl') \<Rightarrow>
                       (Some \<lparr>pw_timestamp = clock_reading env,
                              pw_grid_power = gridPower,
                              pw_battery_power = batteryPower,
                              pw_battery_soe = soe,
                              pw_battery_status = batteryStatus batteryPower,
                              pw_load_power = loadPower,
                              pw_solar_power = solarPower,
                              pw_selfPoweredPercent =
                                dailySelfPowered (selfPoweredPercent gridPower loadPower)
                                  (dayDelta (energy agg) baseline),
                              pw_dailyBreakdown =
                                dailyBreakdown (number_to_string env) (dayDelta (energy agg) baseline)\<rparr>,
                        tbl'))))"

section \<open>Poll handlers (lines 1206-1250 and 1266-1291)\<close>

text \<open>
  Both handlers run the same statements on a reading: append it to \<^verbatim>\<open>history\<close>, trim the
  history to the last 24 hours, save it, insert the sample row inside
  \<^verbatim>\<open>try { insertSample.run(...) } catch (e) { console.error(...) }\<close>, check the alerts and
  broadcast the reading.
\<close>

definition store_and_publish ::
  "'c env \<Rightarrow> reading \<Rightarrow> 'c server \<Rightarrow> error option \<times> 'c server" where
  "store_and_publish env data st =
     (let cutoff = clock_cutoff env - 24 * 60 * 60 * 1000;
          st1 = st\<lparr>history := filter (\<lambda>h. h_timestamp h > cutoff)
                    (history st @
                      [\<lparr>h_timestamp = pw_timestamp data, h_grid = pw_grid_power data,
                        h_battery = pw_battery_power data, h_solar = pw_solar_power data,
                        h_load = pw_load_power data, h_soe = pw_battery_soe data\<rparr>])\<rparr>
      in if \<not> saveJSON_ok env HISTORY_FILE then (Some WriteFileError, st1)
         else
           (let st2 = st1\<lparr>history_file := history st1\<rparr>;
                st3 = (if insertSample_ok env
                       then st2\<lparr>power_samples := power_samples st2 @
                              [\<lparr>ts = pw_timestamp data, solar_w = pw_solar_power data,
                                battery_w = pw_battery_power data, grid_w = pw_grid_power data,
                                load_w = pw_load_power data, battery_soe = pw_battery_soe data,
                                battery_status = pw_battery_status data\<rparr>]\<rparr>
                       else st2)
            in case checkAlerts env data (cached_temps st3) st3 of
                 (Some e, st4) \<Rightarrow> (Some e, st4)
               | (None, st4) \<Rightarrow> (None, broadcastUpdate env (Powerwall data) st4)))"

text \<open>
  The 10-second timer (lines 1266-1291). Nothing in it catches: an error that escapes is
  the rejection of the timer's promise.
\<close>

definition poll_timer :: "'c env \<Rightarrow> 'c server \<Rightarrow> error option \<times> 'c server" where
  "poll_timer env st =
     (if length (sseClients st) > 0 then
        (case fetchPowerwallData env (daily_baselines st) of
           (None, tbl) \<Rightarrow> (None, st\<lparr>daily_baselines := tbl\<rparr>)
         | (Some data, tbl) \<Rightarrow>
             store_and_publish env data
               (st\<lparr>daily_baselines := tbl, cached_powerwall := Some data\<rparr>))
      else (None, st))"

text \<open>
  \<^verbatim>\<open>GET /api/powerwall\<close> (lines 1206-1250): a cached reading younger than 15 seconds is
  returned as it is; \<^verbatim>\<open>cachedData.lastUpdate.powerwall\<close> is \<^verbatim>\<open>undefined\<close> (\<open>None\<close>) until
  this handler has stored a reading, and the comparison is then false. The whole body is
  inside \<^verbatim>\<open>try\<close>; the handler at line 1246 answers an escaped error with status 500.
\<close>

datatype response = Json reading | Status500

text \<open>
  \<^verbatim>\<open>cachedData.powerwall && now - cachedData.lastUpdate.powerwall < 15000\<close>: the cached
  reading when the test holds.
\<close>

definition fresh_cache :: "'c env \<Rightarrow> 'c server \<Rightarrow> reading option" where
  "fresh_cache env st =
     (case cached_powerwall st of
        None \<Rightarrow> None
      | Some cached \<Rightarrow>
          (case lastUpdate_powerwall st of
             None \<Rightarrow> None
           | Some lastUpdate \<Rightarrow>
               if clock_handler env - lastUpdate < 15000 then Some cached else None))"

definition get_api_powerwall :: "'c env \<Rightarrow> 'c server \<Rightarrow> response \<times> 'c server" where
  "get_api_powerwall env st =
     (case fresh_cache env st of
        Some cached \<Rightarrow> (Json cached, st)
      | None \<Rightarrow>
          (case fetchPowerwallData env (daily_baselines st) of
             (None, tbl) \<Rightarrow> (Status500, st\<lparr>daily_baselines := tbl\<rparr>)
           | (Some powerwallData, tbl) \<Rightarrow>
               (case store_and_publish env powerwallData
                       (st\<lparr>daily_baselines := tbl,
                          cached_powerwall := Some powerwallData,
                          lastUpdate_powerwall := Some (clock_handler env)\<rparr>) of
                  (Some e, st') \<Rightarrow> (Status500, st')
                | (None, st') \<Rightarrow> (Json powerwallData, st'))))"

section \<open>Start-up state and an example environment\<close>

text \<open>
  The state after start-up when no data file exists yet (lines 132-148 and 192-202):
  every list is empty, nothing is cached, nobody is subscribed, and the alert settings are
  the defaults of lines 140-147.
\<close>

definition default_alert_settings :: alert_settings where
  "default_alert_settings =
     \<lparr>batteryLow = 20, batteryHigh = 95, gridDown = True, highLoad = 5000,
      highTemp = 85, lowTemp = 50\<rparr>"

definition initial_server :: "'c server" where
  "initial_server =
     \<lparr>sseClients = [], alerts = [], history = [], analytics = [],
      cached_powerwall = None, lastUpdate_powerwall = None, cached_temps = None,
      settings_alerts = default_alert_settings, daily_baselines = [], power_samples = [],
      alerts_file = [], history_file = [], analytics_file = [],
      broadcasts = [], wire = []\<rparr>"

text \<open>
  An environment for worked examples: every write is accepted, the gateway answers with a
  grid import of 980 W against a load of 990 W and a battery at 10 percent, and numbers
  print as a placeholder. Subscribers are named by strings.
\<close>

definition example_env :: "string env" where
  "example_env =
     \<lparr>write_ok = (\<lambda>c. True), saveJSON_ok = (\<lambda>f. True),
      insertSample_ok = True, insertBaseline_ok = True, login_ok = True,
      aggregates_res =
        Some \<lparr>solar_instant_power = 0.2, battery_instant_power = 9.7,
              load_instant_power = 990.4, site_instant_power = 980.1,
              energy = \<lparr>cumSolar = 1500000, cumBatteryOut = 0, cumBatteryIn = 0,
                        cumGridIn = 700000, cumGridOut = 0, cumLoad = 2800000\<rparr>\<rparr>,
      soe_res = Some 10,
      clock_handler = 1000000, clock_reading = 1000200, clock_cutoff = 1000300,
      clock_alerts = 1000400,
      todayKey = ''2026-11-03'', number_to_string = (\<lambda>x. ''#'')\<rparr>"

definition example_reading :: reading where
  "example_reading =
     \<lparr>pw_timestamp = 1000200, pw_grid_power = 980, pw_battery_power = 10,
      pw_battery_soe = 10, pw_battery_status = ''standby'', pw_load_power = 990,
      pw_solar_power = 0, pw_selfPoweredPercent = 1,
      pw_dailyBreakdown =
        \<lparr>solarPct = 0, batteryPct = 0, gridPct = 0, solarKwh = KwhNumber 0,
         batteryKwh = KwhNumber 0, gridKwh = KwhNumber 0, loadKwh = KwhNumber 0\<rparr>\<rparr>"

section \<open>Properties of the normalisation\<close>

lemma Math_round_mono: "x \<le> y \<Longrightarrow> Math_round x \<le> Math_round y"
  unfolding Math_round_def by (intro floor_mono) simp

lemma Math_round_of_int: "Math_round (real_of_int n) = n"
  unfolding Math_round_def by linarith



text \<open>
  Claim C10. The battery status is a dead band on the (rounded) instantaneous battery
  power: above +10 W it is "discharging", below -10 W it is "charging", and every value
  from -10 to +10, both ends included, is "standby".
\<close>

theorem batteryStatus_dead_band:
  "(batteryStatus p = ''discharging'') = (10 < p)
   \<and> (batteryStatus p = ''charging'') = (p < - 10)
   \<and> (batteryStatus p = ''standby'') = (- 10 \<le> p \<and> p \<le> 10)
   \<and> batteryStatus 0 = ''standby'' \<and> batteryStatus 10 = ''standby''
   \<and> batteryStatus (- 10) = ''standby'' \<and> batteryStatus 11 = ''discharging''
   \<and> batteryStatus (- 11) = ''charging''"
  by (simp add: batteryStatus_def)

section \<open>Properties of the baseline tracker\<close>

lemma find_append_if:
  "find P (xs @ ys) = (case find P xs of None \<Rightarrow> find P ys | Some x \<Rightarrow> Some x)"
  by (induction xs) auto

lemma find_filter_not: "find P (filter (\<lambda>x. \<not> P x) xs) = None"
  by (induction xs) auto

lemma getBaseline_get_inserted:
  "getBaseline_get key (filter (\<lambda>r. date r \<noteq> key) tbl @ [baseline_values key c])
     = Some (baseline_values key c)"
  by (simp add: getBaseline_get_def find_append_if find_filter_not baseline_values_def)

lemma track_baseline_present:
  "getBaseline_get key tbl = Some b \<Longrightarrow> track_baseline db_ok key c tbl = Inr (b, tbl)"
  by (simp add: track_baseline_def)

lemma track_baseline_absent_ok:
  "getBaseline_get key tbl = None \<Longrightarrow>
     track_baseline True key c tbl
       = Inr (baseline_values key c, filter (\<lambda>r. date r \<noteq> key) tbl @ [baseline_values key c])"
  by (simp add: track_baseline_def insertBaseline_run_def getBaseline_get_inserted)

lemma track_baseline_absent_fail:
  "getBaseline_get key tbl = None \<Longrightarrow> track_baseline False key c tbl = Inl SqliteError"
  by (simp add: track_baseline_def insertBaseline_run_def)

lemma getBaseline_get_None_filter:
  "getBaseline_get key tbl = None \<Longrightarrow> filter (\<lambda>r. date r \<noteq> key) tbl = tbl"
  by (induction tbl) (auto simp: getBaseline_get_def split: if_splits)

lemma getBaseline_get_None_notin:
  "getBaseline_get key tbl = None \<Longrightarrow> key \<notin> date ` set tbl"
  by (induction tbl) (auto simp: getBaseline_get_def split: if_splits)

lemma track_baseline_seq_present:
  "getBaseline_get key tbl = Some b \<Longrightarrow>
     track_baseline_seq key polls tbl = (map (\<lambda>_. Inr b) polls, tbl)"
  by (induction polls) (auto simp: track_baseline_present)

lemma track_baseline_seq_absent:
  "getBaseline_get key tbl = None \<Longrightarrow>
     track_baseline_seq key polls tbl =
       (case dropWhile (\<lambda>p. \<not> fst p) polls of
          [] \<Rightarrow> (map (\<lambda>_. Inl SqliteError) polls, tbl)
        | (_, c0) # rest \<Rightarrow>
            (map (\<lambda>_. Inl SqliteError) (takeWhile (\<lambda>p. \<not> fst p) polls)
               @ map (\<lambda>_. Inr (baseline_values key c0)) ((True, c0) # rest),
             tbl @ [baseline_values key c0]))"
proof (induction polls)
  case Nil
  then show ?case by simp
next
  case (Cons p polls)
  note absent = Cons.prems
  note IH = Cons.IH [OF Cons.prems]
  obtain ok c where p: "p = (ok, c)" by (cases p)
  show ?case
  proof (cases ok)
    case True
    have "getBaseline_get key (tbl @ [baseline_values key c]) = Some (baseline_values key c)"
      using getBaseline_get_inserted [of key tbl c] getBaseline_get_None_filter [OF absent]
      by simp
    then show ?thesis
      using absent True p
      by (simp add: track_baseline_absent_ok getBaseline_get_None_filter track_baseline_seq_present)
  next
    case False
    have fail: "track_baseline False key c tbl = Inl SqliteError"
      by (rule track_baseline_absent_fail [OF absent])
    show ?thesis
    proof (cases "dropWhile (\<lambda>p. \<not> fst p) polls")
      case Nil
      have "track_baseline_seq key polls tbl = (map (\<lambda>_. Inl SqliteError) polls, tbl)"
        by (simp add: IH Nil)
      then show ?thesis
        using False p by (simp add: fail Nil)
    next
      case (Cons q rest)
      obtain ok' c0 where q: "q = (ok', c0)" by (cases q)
      have "track_baseline_seq key polls tbl =
          (map (\<lambda>_. Inl SqliteError) (takeWhile (\<lambda>p. \<not> fst p) polls)
               @ map (\<lambda>_. Inr (baseline_values key c0)) ((True, c0) # rest),
             tbl @ [baseline_values key c0])"
        by (simp add: IH Cons q)
      then show ?thesis
        using False p by (simp add: fail Cons q)
    qed
  qed
qed

lemma distinct_track_baseline:
  "distinct (map date tbl) \<Longrightarrow> track_baseline db_ok key c tbl = Inr (b, tbl')
     \<Longrightarrow> distinct (map date tbl')"
  by (auto simp: track_baseline_def insertBaseline_run_def baseline_values_def distinct_map_filter
           split: option.splits if_splits)

text \<open>
  Claim C2. Insert-if-absent is idempotent. Run the baseline step of any number of polls
  under one date key, each with its own candidate counters, on a table that satisfies the
  primary key. If the date already has a row, every poll yields that row and the table is
  never changed. If it has none, the polls whose write the store refuses yield nothing and
  change nothing; the first poll whose write is accepted appends the row of its own
  counters, and that poll and every later one yield exactly this row. The table keeps at
  most one row per date throughout.
\<close>

theorem baseline_insert_if_absent_idempotent:
  assumes "distinct (map date tbl)"
  shows "case track_baseline_seq key polls tbl of (rs, tbl') \<Rightarrow>
      distinct (map date tbl')
      \<and> (\<forall>b. getBaseline_get key tbl = Some b \<longrightarrow>
             rs = replicate (length polls) (Inr b) \<and> tbl' = tbl)
      \<and> (getBaseline_get key tbl = None \<longrightarrow>
            (case dropWhile (\<lambda>p. \<not> fst p) polls of
               [] \<Rightarrow> rs = replicate (length polls) (Inl SqliteError) \<and> tbl' = tbl
             | (_, c0) # rest \<Rightarrow>
                 rs = replicate (length (takeWhile (\<lambda>p. \<not> fst p) polls)) (Inl SqliteError)
                        @ replicate (Suc (length rest)) (Inr (baseline_values key c0))
                 \<and> tbl' = tbl @ [baseline_values key c0]
                 \<and> getBaseline_get key tbl' = Some (baseline_values key c0)))"
proof (cases "getBaseline_get key tbl")
  case None
  note absent = None
  show ?thesis
  proof (cases "dropWhile (\<lambda>p. \<not> fst p) polls")
    case Nil
    show ?thesis
      using assms absent by (simp add: track_baseline_seq_absent Nil map_replicate_const)
  next
    case (Cons q rest)
    obtain ok c0 where q: "q = (ok, c0)" by (cases q)
    have "key \<notin> date ` set tbl"
      by (rule getBaseline_get_None_notin [OF absent])
    then have d: "distinct (map date (tbl @ [baseline_values key c0]))"
      using assms by (simp add: baseline_values_def)
    have g: "getBaseline_get key (tbl @ [baseline_values key c0]) = Some (baseline_values key c0)"
      using getBaseline_get_inserted [of key tbl c0] getBaseline_get_None_filter [OF absent]
      by simp
    show ?thesis
      using absent d g by (simp add: track_baseline_seq_absent Cons q map_replicate_const)
  qed
next
  case (Some b)
  then show ?thesis
    using assms by (simp add: track_baseline_seq_present map_replicate_const)
qed

theorem baseline_insert_if_absent_idempotent_witness:
  "distinct (map date []) \<and>
   track_baseline_seq ''2026-11-03''
     [(False, \<lparr>cumSolar = 5, cumBatteryOut = 0, cumBatteryIn = 0, cumGridIn = 0,
                cumGridOut = 0, cumLoad = 0\<rparr>),
      (True, \<lparr>cumSolar = 7, cumBatteryOut = 0, cumBatteryIn = 0, cumGridIn = 0,
               cumGridOut = 0, cumLoad = 0\<rparr>),
      (True, \<lparr>cumSolar = 9, cumBatteryOut = 0, cumBatteryIn = 0, cumGridIn = 0,
               cumGridOut = 0, cumLoad = 0\<rparr>)] []
   = ([Inl SqliteError,
       Inr (baseline_values ''2026-11-03''
              \<lparr>cumSolar = 7, cumBatteryOut = 0, cumBatteryIn = 0, cumGridIn = 0,
               cumGridOut = 0, cumLoad = 0\<rparr>),
       Inr (baseline_values ''2026-11-03''
              \<lparr>cumSolar = 7, cumBatteryOut = 0, cumBatteryIn = 0, cumGridIn = 0,
               cumGridOut = 0, cumLoad = 0\<rparr>)],
      [baseline_values ''2026-11-03''
         \<lparr>cumSolar = 7, cumBatteryOut = 0, cumBatteryIn = 0, cumGridIn = 0,
          cumGridOut = 0, cumLoad = 0\<rparr>])"
  using baseline_insert_if_absent_idempotent [of "[]" "''2026-11-03''"
     "[(False, \<lparr>cumSolar = 5, cumBatteryOut = 0, cumBatteryIn = 0, cumGridIn = 0,
                cumGridOut = 0, cumLoad = 0\<rparr>),
      (True, \<lparr>cumSolar = 7, cumBatteryOut = 0, cumBatteryIn = 0, cumGridIn = 0,
               cumGridOut = 0, cumLoad = 0\<rparr>),
      (True, \<lparr>cumSolar = 9, cumBatteryOut = 0, cumBatteryIn = 0, cumGridIn = 0,
               cumGridOut = 0, cumLoad = 0\<rparr>)]"]
  by (simp add: getBaseline_get_def split: prod.splits)

lemma dayDelta_seq_present:
  "getBaseline_get key tbl = Some b \<Longrightarrow>
     dayDelta_seq key polls tbl = map (\<lambda>p. dayDelta (snd p) b) polls"
  by (induction polls) (auto simp: track_baseline_present)

lemma dayDelta_seq_absent:
  "getBaseline_get key tbl = None \<Longrightarrow>
     dayDelta_seq key polls tbl =
       (case dropWhile (\<lambda>p. \<not> fst p) polls of
          [] \<Rightarrow> []
        | (ok, c0) # rest \<Rightarrow>
            map (\<lambda>p. dayDelta (snd p) (baseline_values key c0)) ((ok, c0) # rest))"
proof (induction polls)
  case Nil
  then show ?case by simp
next
  case (Cons p polls)
  note absent = Cons.prems
  obtain ok c where p: "p = (ok, c)" by (cases p)
  show ?case
  proof (cases ok)
    case True
    have "getBaseline_get key (tbl @ [baseline_values key c]) = Some (baseline_values key c)"
      using getBaseline_get_inserted [of key tbl c] getBaseline_get_None_filter [OF absent]
      by simp
    then show ?thesis
      using absent True p
      by (simp add: track_baseline_absent_ok getBaseline_get_None_filter dayDelta_seq_present)
  next
    case False
    then show ?thesis
      using p Cons.IH [OF absent] by (simp add: track_baseline_absent_fail [OF absent])
  qed
qed

lemma dayDelta_seq_drop:
  "\<exists>b k. dayDelta_seq key polls tbl = map (\<lambda>p. dayDelta (snd p) b) (drop k polls)"
proof (cases "getBaseline_get key tbl")
  case None
  show ?thesis
  proof (cases "dropWhile (\<lambda>p. \<not> fst p) polls")
    case Nil
    have "dayDelta_seq key polls tbl = map (\<lambda>p. dayDelta (snd p) undefined) (drop (length polls) polls)"
      by (simp add: dayDelta_seq_absent [OF None] Nil)
    then show ?thesis by blast
  next
    case (Cons q rest)
    obtain ok c0 where q: "q = (ok, c0)" by (cases q)
    have "dayDelta_seq key polls tbl =
        map (\<lambda>p. dayDelta (snd p) (baseline_values key c0))
          (drop (length (takeWhile (\<lambda>p. \<not> fst p) polls)) polls)"
      unfolding dropWhile_eq_drop [symmetric]
      by (simp add: dayDelta_seq_absent [OF None] Cons q)
    then show ?thesis by blast
  qed
next
  case (Some b)
  have "dayDelta_seq key polls tbl = map (\<lambda>p. dayDelta (snd p) b) (drop 0 polls)"
    by (simp add: dayDelta_seq_present [OF Some])
  then show ?thesis by blast
qed

lemma sorted_map_mono_drop:
  assumes "sorted (map f xs)" and "\<And>x y. f x \<le> f y \<Longrightarrow> g x \<le> g y"
  shows "sorted (map g (drop k xs))"
proof -
  have "sorted_wrt (\<lambda>x y. f x \<le> f y) (drop k xs)"
    using assms(1) by (simp add: sorted_map)
  then have "sorted_wrt (\<lambda>x y. g x \<le> g y) (drop k xs)"
    by (rule sorted_wrt_mono_rel [rotated]) (simp add: assms(2))
  then show ?thesis by (simp add: sorted_map)
qed

text \<open>
  Claim C1, as the code has it. For every sequence of polls under one date key, each
  per-channel day-delta is never negative, and over the sequence it is monotonically
  non-decreasing whenever the cumulative counter of that channel is itself non-decreasing
  over the sequence.
\<close>

theorem dayDelta_nonneg_and_monotone_in_counter:
  "(\<forall>d \<in> set (dayDelta_seq key polls tbl).
       0 \<le> daySolar d \<and> 0 \<le> dayBattery d \<and> 0 \<le> dayGrid d \<and> 0 \<le> dayLoad d)
   \<and> (sorted (map (\<lambda>p. cumSolar (snd p)) polls)
        \<longrightarrow> sorted (map daySolar (dayDelta_seq key polls tbl)))
   \<and> (sorted (map (\<lambda>p. cumBatteryOut (snd p)) polls)
        \<longrightarrow> sorted (map dayBattery (dayDelta_seq key polls tbl)))
   \<and> (sorted (map (\<lambda>p. cumGridIn (snd p)) polls)
        \<longrightarrow> sorted (map dayGrid (dayDelta_seq key polls tbl)))
   \<and> (sorted (map (\<lambda>p. cumLoad (snd p)) polls)
        \<longrightarrow> sorted (map dayLoad (dayDelta_seq key polls tbl)))"
proof -
  obtain b k where eq: "dayDelta_seq key polls tbl = map (\<lambda>p. dayDelta (snd p) b) (drop k polls)"
    using dayDelta_seq_drop by blast
  have nonneg: "\<forall>d \<in> set (dayDelta_seq key polls tbl).
       0 \<le> daySolar d \<and> 0 \<le> dayBattery d \<and> 0 \<le> dayGrid d \<and> 0 \<le> dayLoad d"
    unfolding eq by (simp add: dayDelta_def)
  have solar: "sorted (map daySolar (dayDelta_seq key polls tbl))"
    if "sorted (map (\<lambda>p. cumSolar (snd p)) polls)"
    unfolding eq map_map comp_def
    by (rule sorted_map_mono_drop [OF that]) (simp add: dayDelta_def)
  have battery: "sorted (map dayBattery (dayDelta_seq key polls tbl))"
    if "sorted (map (\<lambda>p. cumBatteryOut (snd p)) polls)"
    unfolding eq map_map comp_def
    by (rule sorted_map_mono_drop [OF that]) (simp add: dayDelta_def)
  have grid: "sorted (map dayGrid (dayDelta_seq key polls tbl))"
    if "sorted (map (\<lambda>p. cumGridIn (snd p)) polls)"
    unfolding eq map_map comp_def
    by (rule sorted_map_mono_drop [OF that]) (simp add: dayDelta_def)
  have load: "sorted (map dayLoad (dayDelta_seq key polls tbl))"
    if "sorted (map (\<lambda>p. cumLoad (snd p)) polls)"
    unfolding eq map_map comp_def
    by (rule sorted_map_mono_drop [OF that]) (simp add: dayDelta_def)
  show ?thesis
    using nonneg solar battery grid load by blast
qed

theorem dayDelta_nonneg_and_monotone_in_counter_witness:
  "sorted (map (\<lambda>p. cumSolar (snd p))
     [(True, \<lparr>cumSolar = 100, cumBatteryOut = 7, cumBatteryIn = 0, cumGridIn = 3,
               cumGridOut = 0, cumLoad = 10\<rparr>),
      (True, \<lparr>cumSolar = 120, cumBatteryOut = 7, cumBatteryIn = 0, cumGridIn = 4,
               cumGridOut = 0, cumLoad = 31\<rparr>)])
   \<and> sorted (map daySolar (dayDelta_seq ''2026-11-03''
     [(True, \<lparr>cumSolar = 100, cumBatteryOut = 7, cumBatteryIn = 0, cumGridIn = 3,
               cumGridOut = 0, cumLoad = 10\<rparr>),
      (True, \<lparr>cumSolar = 120, cumBatteryOut = 7, cumBatteryIn = 0, cumGridIn = 4,
               cumGridOut = 0, cumLoad = 31\<rparr>)] []))"
  using dayDelta_nonneg_and_monotone_in_counter [of "''2026-11-03''"
     "[(True, \<lparr>cumSolar = 100, cumBatteryOut = 7, cumBatteryIn = 0, cumGridIn = 3,
               cumGridOut = 0, cumLoad = 10\<rparr>),
      (True, \<lparr>cumSolar = 120, cumBatteryOut = 7, cumBatteryIn = 0, cumGridIn = 4,
               cumGridOut = 0, cumLoad = 31\<rparr>)]" "[]"]
  by simp

text \<open>
  The claim as written fails: with the baseline fixed at 100 by the first poll, the solar
  counter reading 100, 150 and then 120 gives the day-deltas 0, 50 and 20.
\<close>

theorem dayDelta_glitch_counterexample:
  "map daySolar (dayDelta_seq ''2026-11-03''
     [(True, \<lparr>cumSolar = 100, cumBatteryOut = 0, cumBatteryIn = 0, cumGridIn = 0,
               cumGridOut = 0, cumLoad = 0\<rparr>),
      (True, \<lparr>cumSolar = 150, cumBatteryOut = 0, cumBatteryIn = 0, cumGridIn = 0,
               cumGridOut = 0, cumLoad = 0\<rparr>),
      (True, \<lparr>cumSolar = 120, cumBatteryOut = 0, cumBatteryIn = 0, cumGridIn = 0,
               cumGridOut = 0, cumLoad = 0\<rparr>)] []) = [0, 50, 20]
   \<and> \<not> sorted (map daySolar (dayDelta_seq ''2026-11-03''
     [(True, \<lparr>cumSolar = 100, cumBatteryOut = 0, cumBatteryIn = 0, cumGridIn = 0,
               cumGridOut = 0, cumLoad = 0\<rparr>),
      (True, \<lparr>cumSolar = 150, cumBatteryOut = 0, cumBatteryIn = 0, cumGridIn = 0,
               cumGridOut = 0, cumLoad = 0\<rparr>),
      (True, \<lparr>cumSolar = 120, cumBatteryOut = 0, cumBatteryIn = 0, cumGridIn = 0,
               cumGridOut = 0, cumLoad = 0\<rparr>)] []))"
  by (simp add: track_baseline_def getBaseline_get_def insertBaseline_run_def
        baseline_values_def dayDelta_def or_zero_def)

section \<open>Properties of the metrics deriver\<close>









section \<open>Properties of the broadcast fan-out\<close>

lemma forEach_write_all_ok:
  "\<forall>c \<in> set cs. w c \<Longrightarrow> k + todo = length cs \<Longrightarrow>
     forEach_write w todo k cs written = (cs, written @ drop k cs)"
proof (induction todo arbitrary: k written)
  case 0
  then show ?case by simp
next
  case (Suc todo)
  then have k: "k < length cs" and w: "w (cs ! k)" by auto
  have "forEach_write w (Suc todo) k cs written = forEach_write w todo (Suc k) cs (written @ [cs ! k])"
    using k w by simp
  also have "\<dots> = (cs, (written @ [cs ! k]) @ drop (Suc k) cs)"
    using Suc.prems by (intro Suc.IH) auto
  also have "(written @ [cs ! k]) @ drop (Suc k) cs = written @ drop k cs"
    using k by (simp add: Cons_nth_drop_Suc)
  finally show ?case .
qed

lemma broadcastUpdate_fields [simp]:
  "alerts (broadcastUpdate env ev st) = alerts st"
  "history (broadcastUpdate env ev st) = history st"
  "analytics (broadcastUpdate env ev st) = analytics st"
  "cached_powerwall (broadcastUpdate env ev st) = cached_powerwall st"
  "lastUpdate_powerwall (broadcastUpdate env ev st) = lastUpdate_powerwall st"
  "cached_temps (broadcastUpdate env ev st) = cached_temps st"
  "settings_alerts (broadcastUpdate env ev st) = settings_alerts st"
  "daily_baselines (broadcastUpdate env ev st) = daily_baselines st"
  "power_samples (broadcastUpdate env ev st) = power_samples st"
  "alerts_file (broadcastUpdate env ev st) = alerts_file st"
  "history_file (broadcastUpdate env ev st) = history_file st"
  "analytics_file (broadcastUpdate env ev st) = analytics_file st"
  "broadcasts (broadcastUpdate env ev st) = broadcasts st @ [ev]"
  by (simp_all add: broadcastUpdate_def split: prod.splits)

lemma broadcastUpdate_all_ok:
  "\<forall>c \<in> set (sseClients st). write_ok env c \<Longrightarrow>
     sseClients (broadcastUpdate env ev st) = sseClients st
     \<and> wire (broadcastUpdate env ev st) = wire st @ map (\<lambda>c. (c, ev)) (sseClients st)"
  by (simp add: broadcastUpdate_def forEach_write_all_ok)

text \<open>
  What the loop does guarantee, whatever writes fail: it ends, it never removes a
  subscriber whose write succeeds, and the subscribers it has written to are, in their
  order, a subsequence of the subscribers whose write succeeds, so that nobody is written
  to twice.
\<close>

lemma filter_remove_failed:
  "k < length cs \<Longrightarrow> \<not> w (cs ! k) \<Longrightarrow> filter w (take k cs @ drop (Suc k) cs) = filter w cs"
proof -
  assume k: "k < length cs" and f: "\<not> w (cs ! k)"
  have "cs = take k cs @ cs ! k # drop (Suc k) cs"
    using k by (simp add: id_take_nth_drop)
  then have "filter w cs = filter w (take k cs @ cs ! k # drop (Suc k) cs)"
    by simp
  also have "\<dots> = filter w (take k cs @ drop (Suc k) cs)"
    using f by simp
  finally show ?thesis by simp
qed

lemma forEach_write_sound:
  "forEach_write w todo k cs written = (cs', written') \<Longrightarrow>
     filter w cs' = filter w cs
     \<and> (\<exists>ws. written' = written @ ws \<and> subseq ws (filter w (drop k cs)))"
proof (induction todo arbitrary: k cs written)
  case 0
  then show ?case by simp
next
  case (Suc todo)
  show ?case
  proof (cases "k < length cs")
    case False
    then have "forEach_write w todo (Suc k) cs written = (cs', written')"
      using Suc.prems by simp
    from Suc.IH [OF this] False show ?thesis by simp
  next
    case True
    show ?thesis
    proof (cases "w (cs ! k)")
      case ok: True
      have "forEach_write w todo (Suc k) cs (written @ [cs ! k]) = (cs', written')"
        using Suc.prems True ok by simp
      from Suc.IH [OF this] obtain ws where
        f: "filter w cs' = filter w cs" and
        ws: "written' = (written @ [cs ! k]) @ ws" "subseq ws (filter w (drop (Suc k) cs))"
        by blast
      have "drop k cs = cs ! k # drop (Suc k) cs"
        using True by (simp add: Cons_nth_drop_Suc)
      then have "subseq (cs ! k # ws) (filter w (drop k cs))"
        using ws(2) ok by simp
      then show ?thesis
        using f ws(1) by auto
    next
      case bad: False
      let ?cs2 = "take k cs @ drop (Suc k) cs"
      have "forEach_write w todo (Suc k) ?cs2 written = (cs', written')"
        using Suc.prems True bad by simp
      from Suc.IH [OF this] obtain ws where
        f: "filter w cs' = filter w ?cs2" and
        ws: "written' = written @ ws" "subseq ws (filter w (drop (Suc k) ?cs2))"
        by blast
      have d: "drop (Suc k) ?cs2 = drop 1 (drop (Suc k) cs)"
        using True by simp
      have "subseq (drop 1 (drop (Suc k) cs)) (take 1 (drop (Suc k) cs) @ drop 1 (drop (Suc k) cs))"
        by (rule subseq_drop_many) simp
      then have "subseq (drop (Suc k) ?cs2) (drop (Suc k) cs)"
        unfolding d append_take_drop_id .
      then have "subseq (filter w (drop (Suc k) ?cs2)) (filter w (drop (Suc k) cs))"
        by (rule subseq_filter)
      moreover have "drop k cs = cs ! k # drop (Suc k) cs"
        using True by (simp add: Cons_nth_drop_Suc)
      ultimately have "subseq (filter w (drop (Suc k) ?cs2)) (filter w (drop k cs))"
        using bad by simp
      then have "subseq ws (filter w (drop k cs))"
        using ws(2) subseq_order.order_trans by blast
      then show ?thesis
        using f ws(1) filter_remove_failed [of k cs w] True bad by auto
    qed
  qed
qed


text \<open>
  Claim C7 fails on the code. With two subscribers, the write to the first throwing and
  the write to the second one sound, the loop removes the first and never writes to the
  second: after the \<open>splice\<close> the second subscriber sits at index 0, and the loop goes on
  at index 1, which is no longer in the array.
\<close>

theorem forEach_write_skips_next_subscriber:
  "forEach_write (\<lambda>c. c \<noteq> ''A'') (length [''A'', ''B'']) 0 [''A'', ''B''] [] = ([''B''], [])"
  by simp

section \<open>Properties of the alert engine\<close>

lemma newAlerts_ids:
  "map alert_id (newAlerts env s pw t) =
     (if pw_battery_soe pw \<le> batteryLow s then [''battery-low''] else [])
     @ (if pw_battery_soe pw \<ge> batteryHigh s then [''battery-high''] else [])
     @ (if gridDown s \<and> pw_grid_power pw \<le> 0 then [''grid-down''] else [])
     @ (if real_of_int (pw_load_power pw) \<ge> highLoad s then [''high-load''] else [])
     @ (case t of
          None \<Rightarrow> []
        | Some tt \<Rightarrow>
            (if real_of_int (inside_temp tt) \<ge> highTemp s then [''high-temp''] else [])
            @ (if real_of_int (inside_temp tt) \<le> lowTemp s then [''low-temp''] else []))"
  by (simp add: newAlerts_def split: option.splits)

lemma distinct_newAlerts: "distinct (map alert_id (newAlerts env s pw t))"
  unfolding newAlerts_ids by (auto split: option.splits)

lemma length_newAlerts: "length (newAlerts env s pw t) \<le> 6"
proof -
  have "length (map alert_id (newAlerts env s pw t)) \<le> 6"
    unfolding newAlerts_ids by (simp split: option.splits)
  then show ?thesis by simp
qed

lemma newAlerts_ids_env:
  "map alert_id (newAlerts env s pw t) = map alert_id (newAlerts env2 s pw t)"
  by (simp only: newAlerts_ids)

lemma add_new_alerts_fields [simp]:
  "history (add_new_alerts env new st) = history st"
  "analytics (add_new_alerts env new st) = analytics st"
  "cached_powerwall (add_new_alerts env new st) = cached_powerwall st"
  "lastUpdate_powerwall (add_new_alerts env new st) = lastUpdate_powerwall st"
  "cached_temps (add_new_alerts env new st) = cached_temps st"
  "settings_alerts (add_new_alerts env new st) = settings_alerts st"
  "daily_baselines (add_new_alerts env new st) = daily_baselines st"
  "power_samples (add_new_alerts env new st) = power_samples st"
  "alerts_file (add_new_alerts env new st) = alerts_file st"
  "history_file (add_new_alerts env new st) = history_file st"
  "analytics_file (add_new_alerts env new st) = analytics_file st"
  by (induction new arbitrary: st; simp)+

lemma add_new_alerts_effect:
  "distinct (map alert_id new) \<Longrightarrow>
     alerts (add_new_alerts env new st)
       = alerts st @ filter (\<lambda>a. alert_id a \<notin> alert_id ` set (alerts st)) new
     \<and> broadcasts (add_new_alerts env new st)
       = broadcasts st @ map Alert (filter (\<lambda>a. alert_id a \<notin> alert_id ` set (alerts st)) new)"
proof (induction new arbitrary: st)
  case Nil
  then show ?case by simp
next
  case (Cons a rest)
  then have d: "distinct (map alert_id rest)" and na: "\<forall>x \<in> set rest. alert_id x \<noteq> alert_id a"
    by (auto simp: image_iff)
  show ?case
  proof (cases "alert_id a \<in> alert_id ` set (alerts st)")
    case True
    then obtain y where "find (\<lambda>x. alert_id x = alert_id a) (alerts st) = Some y"
      by (cases "find (\<lambda>x. alert_id x = alert_id a) (alerts st)") (auto simp: find_None_iff)
    then show ?thesis
      using Cons.IH [OF d, of st] True by simp
  next
    case False
    then have f: "find (\<lambda>x. alert_id x = alert_id a) (alerts st) = None"
      unfolding find_None_iff by (metis image_eqI)
    let ?st1 = "broadcastUpdate env (Alert a) (st\<lparr>alerts := alerts st @ [a]\<rparr>)"
    have flt: "filter (\<lambda>x. alert_id x \<noteq> alert_id a \<and> alert_id x \<notin> alert_id ` set (alerts st)) rest
        = filter (\<lambda>x. alert_id x \<notin> alert_id ` set (alerts st)) rest"
      using na by (intro filter_cong) auto
    show ?thesis
      using Cons.IH [OF d, of ?st1] False f by (simp add: flt)
  qed
qed

lemma slice_last_append:
  "length ys \<le> n \<Longrightarrow> slice_last n (xs @ ys) = slice_last (n - length ys) xs @ ys"
  by (simp add: slice_last_def)

lemma filter_slice_last_none:
  "\<forall>x \<in> set xs. \<not> P x \<Longrightarrow> filter P (slice_last n xs) = []"
  by (auto simp: slice_last_def filter_empty_conv dest: in_set_dropD)

lemma set_slice_last: "set (slice_last n xs) \<subseteq> set xs"
  by (simp add: slice_last_def set_drop_subset)

lemma filter_same_key:
  "distinct (map f xs) \<Longrightarrow> a \<in> set xs \<Longrightarrow> filter (\<lambda>x. f x = f a) xs = [a]"
  by (induction xs) (auto simp: filter_empty_conv image_iff)

lemma checkAlerts_effect:
  "alerts (snd (checkAlerts env pw t st))
     = slice_last 100 (alerts st @ filter (\<lambda>a. alert_id a \<notin> alert_id ` set (alerts st))
                                      (newAlerts env (settings_alerts st) pw t))
   \<and> broadcasts (snd (checkAlerts env pw t st))
     = broadcasts st @ map Alert (filter (\<lambda>a. alert_id a \<notin> alert_id ` set (alerts st))
                                        (newAlerts env (settings_alerts st) pw t))
   \<and> settings_alerts (snd (checkAlerts env pw t st)) = settings_alerts st
   \<and> (saveJSON_ok env ALERTS_FILE \<longrightarrow>
        fst (checkAlerts env pw t st) = None
        \<and> alerts_file (snd (checkAlerts env pw t st)) = alerts (snd (checkAlerts env pw t st)))"
  using add_new_alerts_effect [OF distinct_newAlerts, of env env "settings_alerts st" pw t st]
  by (simp add: checkAlerts_def Let_def)

lemma delete_api_alerts_effect:
  "alerts (snd (delete_api_alerts env ident st)) = filter (\<lambda>a. alert_id a \<noteq> ident) (alerts st)
   \<and> broadcasts (snd (delete_api_alerts env ident st)) = broadcasts st
   \<and> settings_alerts (snd (delete_api_alerts env ident st)) = settings_alerts st"
  by (simp add: delete_api_alerts_def Let_def)

lemma checkAlerts_raises:
  assumes "a \<in> set (newAlerts env (settings_alerts st) pw t)"
      and "alert_id a \<notin> alert_id ` set (alerts st)"
  shows "\<exists>raised keep.
           broadcasts (snd (checkAlerts env pw t st)) = broadcasts st @ map Alert raised
         \<and> alerts (snd (checkAlerts env pw t st)) = keep @ raised
         \<and> set keep \<subseteq> set (alerts st)
         \<and> length raised \<le> 6
         \<and> filter (\<lambda>b. alert_id b = alert_id a) raised = [a]"
proof -
  let ?new = "newAlerts env (settings_alerts st) pw t"
  let ?raised = "filter (\<lambda>a. alert_id a \<notin> alert_id ` set (alerts st)) ?new"
  have len: "length ?raised \<le> 6"
    using length_newAlerts [of env "settings_alerts st" pw t] length_filter_le [of _ ?new]
    by (meson le_trans)
  have "filter (\<lambda>b. alert_id b = alert_id a) ?new = [a]"
    by (rule filter_same_key [OF distinct_newAlerts assms(1)])
  moreover have "filter (\<lambda>b. alert_id b = alert_id a) ?raised
      = filter (\<lambda>b. alert_id b = alert_id a) ?new"
    using assms(2) by (simp add: conj_commute cong: conj_cong)
  ultimately have one: "filter (\<lambda>b. alert_id b = alert_id a) ?raised = [a]"
    by simp
  have "alerts (snd (checkAlerts env pw t st))
      = slice_last (100 - length ?raised) (alerts st) @ ?raised"
    using len by (simp add: checkAlerts_effect slice_last_append)
  moreover have "set (slice_last (100 - length ?raised) (alerts st)) \<subseteq> set (alerts st)"
    by (rule set_slice_last)
  ultimately show ?thesis
    using len one checkAlerts_effect [of env pw t st] by blast
qed

lemma checkAlerts_suppresses:
  assumes "alert_id a \<in> alert_id ` set (alerts st)"
  shows "\<exists>raised keep.
           broadcasts (snd (checkAlerts env pw t st)) = broadcasts st @ map Alert raised
         \<and> alerts (snd (checkAlerts env pw t st)) = keep @ raised
         \<and> length raised \<le> 6
         \<and> keep = slice_last (100 - length raised) (alerts st)
         \<and> (\<forall>b \<in> set raised. alert_id b \<noteq> alert_id a)"
proof -
  let ?new = "newAlerts env (settings_alerts st) pw t"
  let ?raised = "filter (\<lambda>a. alert_id a \<notin> alert_id ` set (alerts st)) ?new"
  have len: "length ?raised \<le> 6"
    using length_newAlerts [of env "settings_alerts st" pw t] length_filter_le [of _ ?new]
    by (meson le_trans)
  have no: "\<forall>b \<in> set ?raised. alert_id b \<noteq> alert_id a"
    using assms by auto
  have "alerts (snd (checkAlerts env pw t st))
      = slice_last (100 - length ?raised) (alerts st) @ ?raised"
    using len by (simp add: checkAlerts_effect slice_last_append)
  then show ?thesis
    using len no checkAlerts_effect [of env pw t st] by blast
qed

text \<open>
  Claim C3. Let \<open>a\<close> be a candidate that the evaluation of a reading produces.
  If an entry with the id of \<open>a\<close> is already in the list, the evaluation broadcasts no alert
  with that id and every entry with that id that the list holds afterwards is one it held
  before. If there is none, the evaluation broadcasts \<open>a\<close> once and the list then holds
  exactly one entry with that id, which is \<open>a\<close>; a second evaluation of the same reading
  broadcasts no alert with that id and the list and, when the save succeeds, the alerts
  file still hold exactly the entry \<open>a\<close> under that id. After the delete route has removed
  the id, the next evaluation broadcasts \<open>a\<close> once and the list holds exactly \<open>a\<close> under
  that id again.
\<close>

theorem checkAlerts_deduplicates:
  assumes breach: "a \<in> set (newAlerts env (settings_alerts st) pw t)"
  shows
    "(alert_id a \<in> alert_id ` set (alerts st) \<longrightarrow>
        (\<exists>raised. broadcasts (snd (checkAlerts env pw t st)) = broadcasts st @ map Alert raised
            \<and> (\<forall>b \<in> set raised. alert_id b \<noteq> alert_id a))
        \<and> (\<forall>x \<in> set (alerts (snd (checkAlerts env pw t st))).
              alert_id x = alert_id a \<longrightarrow> x \<in> set (alerts st)))
     \<and> (alert_id a \<notin> alert_id ` set (alerts st) \<longrightarrow>
        (\<exists>raised. broadcasts (snd (checkAlerts env pw t st)) = broadcasts st @ map Alert raised
            \<and> filter (\<lambda>b. alert_id b = alert_id a) raised = [a])
        \<and> filter (\<lambda>x. alert_id x = alert_id a) (alerts (snd (checkAlerts env pw t st))) = [a]
        \<and> (\<exists>raised2. broadcasts (snd (checkAlerts env2 pw t (snd (checkAlerts env pw t st))))
                = broadcasts (snd (checkAlerts env pw t st)) @ map Alert raised2
            \<and> (\<forall>b \<in> set raised2. alert_id b \<noteq> alert_id a))
        \<and> filter (\<lambda>x. alert_id x = alert_id a)
              (alerts (snd (checkAlerts env2 pw t (snd (checkAlerts env pw t st))))) = [a]
        \<and> (saveJSON_ok env2 ALERTS_FILE \<longrightarrow>
              filter (\<lambda>x. alert_id x = alert_id a)
                (alerts_file (snd (checkAlerts env2 pw t (snd (checkAlerts env pw t st))))) = [a]))
     \<and> (\<exists>raised. broadcasts (snd (checkAlerts env pw t (snd (delete_api_alerts env0 (alert_id a) st))))
                = broadcasts st @ map Alert raised
            \<and> filter (\<lambda>b. alert_id b = alert_id a) raised = [a])
     \<and> filter (\<lambda>x. alert_id x = alert_id a)
           (alerts (snd (checkAlerts env pw t (snd (delete_api_alerts env0 (alert_id a) st))))) = [a]"
proof -
  let ?P = "\<lambda>x. alert_id x = alert_id a"
  let ?st1 = "snd (checkAlerts env pw t st)"
  let ?st2 = "snd (checkAlerts env2 pw t ?st1)"
  let ?st0 = "snd (delete_api_alerts env0 (alert_id a) st)"
  let ?st3 = "snd (checkAlerts env pw t ?st0)"
  have present:
    "(\<exists>raised. broadcasts ?st1 = broadcasts st @ map Alert raised
         \<and> (\<forall>b \<in> set raised. alert_id b \<noteq> alert_id a))
     \<and> (\<forall>x \<in> set (alerts ?st1). ?P x \<longrightarrow> x \<in> set (alerts st))"
    if pr: "alert_id a \<in> alert_id ` set (alerts st)"
  proof -
    obtain raised keep where
      b: "broadcasts ?st1 = broadcasts st @ map Alert raised" and
      al: "alerts ?st1 = keep @ raised" and
      k: "keep = slice_last (100 - length raised) (alerts st)" and
      no: "\<forall>b \<in> set raised. alert_id b \<noteq> alert_id a"
      using checkAlerts_suppresses [OF pr, of env pw t] by blast
    have "set keep \<subseteq> set (alerts st)"
      unfolding k by (rule set_slice_last)
    then have "\<forall>x \<in> set (alerts ?st1). ?P x \<longrightarrow> x \<in> set (alerts st)"
      unfolding al using no by auto
    then show ?thesis using b no by blast
  qed
  have raise_absent:
    "\<exists>raised keep. broadcasts (snd (checkAlerts env pw t s)) = broadcasts s @ map Alert raised
        \<and> alerts (snd (checkAlerts env pw t s)) = keep @ raised
        \<and> filter ?P keep = [] \<and> length raised \<le> 6 \<and> filter ?P raised = [a]"
    if same: "settings_alerts s = settings_alerts st"
      and ab: "alert_id a \<notin> alert_id ` set (alerts s)"
    for s :: "'a server"
  proof -
    have "a \<in> set (newAlerts env (settings_alerts s) pw t)"
      using breach same by simp
    then obtain raised keep where
      b: "broadcasts (snd (checkAlerts env pw t s)) = broadcasts s @ map Alert raised" and
      al: "alerts (snd (checkAlerts env pw t s)) = keep @ raised" and
      k: "set keep \<subseteq> set (alerts s)" and
      len: "length raised \<le> 6" and
      one: "filter ?P raised = [a]"
      using checkAlerts_raises [OF _ ab, of env pw t] by blast
    have "filter ?P keep = []"
      using k ab unfolding filter_empty_conv by (metis image_eqI subsetD)
    then show ?thesis using b al len one by blast
  qed
  have absent:
    "(\<exists>raised. broadcasts ?st1 = broadcasts st @ map Alert raised \<and> filter ?P raised = [a])
     \<and> filter ?P (alerts ?st1) = [a]
     \<and> (\<exists>raised2. broadcasts ?st2 = broadcasts ?st1 @ map Alert raised2
           \<and> (\<forall>b \<in> set raised2. alert_id b \<noteq> alert_id a))
     \<and> filter ?P (alerts ?st2) = [a]
     \<and> (saveJSON_ok env2 ALERTS_FILE \<longrightarrow> filter ?P (alerts_file ?st2) = [a])"
    if ab0: "alert_id a \<notin> alert_id ` set (alerts st)"
  proof -
    obtain raised keep where
      b: "broadcasts ?st1 = broadcasts st @ map Alert raised" and
      al: "alerts ?st1 = keep @ raised" and
      k: "filter ?P keep = []" and
      len: "length raised \<le> 6" and
      one: "filter ?P raised = [a]"
      using raise_absent [OF refl ab0] by blast
    have first: "filter ?P (alerts ?st1) = [a]"
      unfolding al using k one by simp
    have "a \<in> set (filter ?P (alerts ?st1))"
      unfolding first by simp
    then have "alert_id a \<in> alert_id ` set (alerts ?st1)"
      by auto
    then obtain raised2 keep2 where
      b2: "broadcasts ?st2 = broadcasts ?st1 @ map Alert raised2" and
      al2: "alerts ?st2 = keep2 @ raised2" and
      len2: "length raised2 \<le> 6" and
      k2: "keep2 = slice_last (100 - length raised2) (alerts ?st1)" and
      no2: "\<forall>b \<in> set raised2. alert_id b \<noteq> alert_id a"
      using checkAlerts_suppresses [of a ?st1 env2 pw t] by blast
    have "keep2 = slice_last (100 - length raised2 - length raised) keep @ raised"
      unfolding k2 al using len len2 by (intro slice_last_append) simp
    moreover have "filter ?P (slice_last (100 - length raised2 - length raised) keep) = []"
      using k by (intro filter_slice_last_none) (simp add: filter_empty_conv)
    ultimately have "filter ?P keep2 = [a]"
      using one by simp
    moreover have "filter ?P raised2 = []"
      using no2 by (simp add: filter_empty_conv)
    ultimately have second: "filter ?P (alerts ?st2) = [a]"
      unfolding al2 by simp
    have "saveJSON_ok env2 ALERTS_FILE \<longrightarrow> alerts_file ?st2 = alerts ?st2"
      using checkAlerts_effect [of env2 pw t ?st1] by blast
    then show ?thesis
      using b one first b2 no2 second by auto
  qed
  have cleared:
    "(\<exists>raised. broadcasts ?st3 = broadcasts st @ map Alert raised \<and> filter ?P raised = [a])
     \<and> filter ?P (alerts ?st3) = [a]"
  proof -
    have s: "settings_alerts ?st0 = settings_alerts st"
      and b0: "broadcasts ?st0 = broadcasts st"
      and a0: "alerts ?st0 = filter (\<lambda>x. alert_id x \<noteq> alert_id a) (alerts st)"
      using delete_api_alerts_effect [of env0 "alert_id a" st] by simp_all
    have "alert_id a \<notin> alert_id ` set (alerts ?st0)"
      unfolding a0 by auto
    then obtain raised keep where
      b: "broadcasts ?st3 = broadcasts ?st0 @ map Alert raised" and
      al: "alerts ?st3 = keep @ raised" and
      k: "filter ?P keep = []" and
      one: "filter ?P raised = [a]"
      using raise_absent [OF s] by blast
    have "filter ?P (alerts ?st3) = [a]"
      unfolding al using k one by simp
    then show ?thesis
      using b one unfolding b0 by blast
  qed
  show ?thesis
    using present absent cleared by blast
qed

theorem checkAlerts_deduplicates_witness:
  "hd (newAlerts example_env default_alert_settings example_reading None)
     \<in> set (newAlerts example_env (settings_alerts (initial_server :: string server))
               example_reading None)
   \<and> alert_id (hd (newAlerts example_env default_alert_settings example_reading None))
       = ''battery-low''
   \<and> filter (\<lambda>x. alert_id x = ''battery-low'')
        (alerts (snd (checkAlerts example_env example_reading None
           (snd (checkAlerts example_env example_reading None
              (initial_server :: string server))))))
      = [hd (newAlerts example_env default_alert_settings example_reading None)]"
proof -
  let ?a = "hd (newAlerts example_env default_alert_settings example_reading None)"
  let ?st = "initial_server :: string server"
  have s: "settings_alerts ?st = default_alert_settings"
    by (simp add: initial_server_def)
  have ids: "map alert_id (newAlerts example_env default_alert_settings example_reading None)
      = [''battery-low'']"
    unfolding newAlerts_ids
    by (simp add: default_alert_settings_def example_reading_def)
  then obtain a0 where n: "newAlerts example_env default_alert_settings example_reading None = [a0]"
    by auto
  have b: "?a \<in> set (newAlerts example_env (settings_alerts ?st) example_reading None)"
    unfolding s n by simp
  have i: "alert_id ?a = ''battery-low''"
    using ids unfolding n by simp
  have ab: "alert_id ?a \<notin> alert_id ` set (alerts ?st)"
    by (simp add: initial_server_def)
  have "filter (\<lambda>x. alert_id x = alert_id ?a)
        (alerts (snd (checkAlerts example_env example_reading None
           (snd (checkAlerts example_env example_reading None ?st))))) = [?a]"
    using checkAlerts_deduplicates [OF b, of example_env example_env] ab by blast
  then show ?thesis
    using b i by simp
qed

section \<open>Properties of the analytics roll-up\<close>









section \<open>Properties of the poll handlers\<close>

lemma fetchPowerwallData_failure:
  "\<not> login_ok env \<or> aggregates_res env = None \<or> soe_res env = None \<Longrightarrow>
     fetchPowerwallData env tbl = (None, tbl)"
  by (auto simp: fetchPowerwallData_def split: option.splits)

text \<open>
  Claim C9. When the login, one of the two primary reads or their timeout fails, the fetch
  yields no reading and leaves the baseline table alone; the 10-second timer then returns
  without an error and with the whole state unchanged, so the cached reading stays, no
  sample or history entry is appended, no alert is evaluated and nothing is broadcast; the
  route answers with the cached reading when it is younger than 15 seconds and with
  status 500 otherwise, and also leaves the state unchanged.
\<close>

theorem transient_fetch_failure_no_update:
  assumes "\<not> login_ok env \<or> aggregates_res env = None \<or> soe_res env = None"
  shows "fetchPowerwallData env (daily_baselines st) = (None, daily_baselines st)
     \<and> poll_timer env st = (None, st)
     \<and> get_api_powerwall env st =
         (case fresh_cache env st of Some cached \<Rightarrow> Json cached | None \<Rightarrow> Status500, st)"
proof -
  have f: "fetchPowerwallData env (daily_baselines st) = (None, daily_baselines st)"
    by (rule fetchPowerwallData_failure [OF assms])
  have "poll_timer env st = (None, st)"
    by (simp add: poll_timer_def f)
  moreover have "get_api_powerwall env st =
         (case fresh_cache env st of Some cached \<Rightarrow> Json cached | None \<Rightarrow> Status500, st)"
    by (simp add: get_api_powerwall_def f split: option.splits)
  ultimately show ?thesis
    using f by blast
qed

theorem transient_fetch_failure_no_update_witness:
  "\<not> login_ok (example_env\<lparr>login_ok := False\<rparr>)
   \<and> poll_timer (example_env\<lparr>login_ok := False\<rparr>) (initial_server\<lparr>sseClients := [''A'']\<rparr>)
       = (None, initial_server\<lparr>sseClients := [''A'']\<rparr>)
   \<and> get_api_powerwall (example_env\<lparr>login_ok := False\<rparr>) (initial_server\<lparr>sseClients := [''A'']\<rparr>)
       = (Status500, initial_server\<lparr>sseClients := [''A'']\<rparr>)"
  using transient_fetch_failure_no_update
          [of "example_env\<lparr>login_ok := False\<rparr>" "initial_server\<lparr>sseClients := [''A'']\<rparr>"]
  by (simp add: fresh_cache_def initial_server_def)

lemma add_new_alerts_clients_ok:
  "\<forall>c \<in> set (sseClients st). write_ok env c \<Longrightarrow>
     sseClients (add_new_alerts env new st) = sseClients st"
proof (induction new arbitrary: st)
  case Nil
  then show ?case by simp
next
  case (Cons a rest)
  let ?st1 = "broadcastUpdate env (Alert a) (st\<lparr>alerts := alerts st @ [a]\<rparr>)"
  have c1: "sseClients ?st1 = sseClients st"
    using broadcastUpdate_all_ok [of "st\<lparr>alerts := alerts st @ [a]\<rparr>" env "Alert a"] Cons.prems
    by simp
  show ?case
  proof (cases "find (\<lambda>x. alert_id x = alert_id a) (alerts st) = None")
    case True
    have "sseClients (add_new_alerts env rest ?st1) = sseClients ?st1"
      using Cons.prems c1 by (intro Cons.IH) simp
    then show ?thesis using True c1 by simp
  next
    case False
    then obtain y where "find (\<lambda>x. alert_id x = alert_id a) (alerts st) = Some y"
      by blast
    then show ?thesis using Cons.IH [OF Cons.prems] by simp
  qed
qed

lemma checkAlerts_frame:
  "history (snd (checkAlerts env pw t st)) = history st
   \<and> cached_powerwall (snd (checkAlerts env pw t st)) = cached_powerwall st
   \<and> lastUpdate_powerwall (snd (checkAlerts env pw t st)) = lastUpdate_powerwall st
   \<and> power_samples (snd (checkAlerts env pw t st)) = power_samples st
   \<and> daily_baselines (snd (checkAlerts env pw t st)) = daily_baselines st
   \<and> history_file (snd (checkAlerts env pw t st)) = history_file st"
  by (simp add: checkAlerts_def Let_def)

lemma checkAlerts_clients_ok:
  "\<forall>c \<in> set (sseClients st). write_ok env c \<Longrightarrow>
     sseClients (snd (checkAlerts env pw t st)) = sseClients st"
  by (simp add: checkAlerts_def Let_def add_new_alerts_clients_ok)

lemma store_and_publish_sample_write_fails:
  assumes fail: "\<not> insertSample_ok env"
      and hist: "saveJSON_ok env HISTORY_FILE"
      and al: "saveJSON_ok env ALERTS_FILE"
  shows "fst (store_and_publish env data st) = None
     \<and> power_samples (snd (store_and_publish env data st)) = power_samples st
     \<and> cached_powerwall (snd (store_and_publish env data st)) = cached_powerwall st
     \<and> alerts (snd (store_and_publish env data st))
         = slice_last 100 (alerts st @ filter (\<lambda>a. alert_id a \<notin> alert_id ` set (alerts st))
                                         (newAlerts env (settings_alerts st) data (cached_temps st)))
     \<and> broadcasts (snd (store_and_publish env data st))
         = broadcasts st @ map Alert (filter (\<lambda>a. alert_id a \<notin> alert_id ` set (alerts st))
                                         (newAlerts env (settings_alerts st) data (cached_temps st)))
             @ [Powerwall data]
     \<and> ((\<forall>c \<in> set (sseClients st). write_ok env c) \<longrightarrow>
          (\<forall>c \<in> set (sseClients st). (c, Powerwall data) \<in> set (wire (snd (store_and_publish env data st)))))"
proof -
  let ?raised = "filter (\<lambda>a. alert_id a \<notin> alert_id ` set (alerts st))
                   (newAlerts env (settings_alerts st) data (cached_temps st))"
  define s3 where "s3 =
     st\<lparr>history := filter (\<lambda>h. h_timestamp h > clock_cutoff env - 24 * 60 * 60 * 1000)
                    (history st @
                      [\<lparr>h_timestamp = pw_timestamp data, h_grid = pw_grid_power data,
                        h_battery = pw_battery_power data, h_solar = pw_solar_power data,
                        h_load = pw_load_power data, h_soe = pw_battery_soe data\<rparr>]),
        history_file := filter (\<lambda>h. h_timestamp h > clock_cutoff env - 24 * 60 * 60 * 1000)
                    (history st @
                      [\<lparr>h_timestamp = pw_timestamp data, h_grid = pw_grid_power data,
                        h_battery = pw_battery_power data, h_solar = pw_solar_power data,
                        h_load = pw_load_power data, h_soe = pw_battery_soe data\<rparr>])\<rparr>"
  define s4 where "s4 = snd (checkAlerts env data (cached_temps s3) s3)"
  have s3: "alerts s3 = alerts st" "broadcasts s3 = broadcasts st"
    "settings_alerts s3 = settings_alerts st" "cached_temps s3 = cached_temps st"
    "sseClients s3 = sseClients st" "power_samples s3 = power_samples st"
    "cached_powerwall s3 = cached_powerwall st"
    by (simp_all add: s3_def)
  have "fst (checkAlerts env data (cached_temps s3) s3) = None"
    using checkAlerts_effect [of env data "cached_temps s3" s3] al by blast
  then have r: "checkAlerts env data (cached_temps s3) s3 = (None, s4)"
    unfolding s4_def by (metis prod.collapse)
  have sp: "store_and_publish env data st = (None, broadcastUpdate env (Powerwall data) s4)"
    using fail hist r unfolding s3_def by (simp add: store_and_publish_def Let_def)
  have a4: "alerts s4 = slice_last 100 (alerts st @ ?raised)"
    and b4: "broadcasts s4 = broadcasts st @ map Alert ?raised"
    using checkAlerts_effect [of env data "cached_temps s3" s3] unfolding s4_def s3 by blast+
  have p4: "power_samples s4 = power_samples st" and c4: "cached_powerwall s4 = cached_powerwall st"
    using checkAlerts_frame [of env data "cached_temps s3" s3] unfolding s4_def s3 by blast+
  have w: "\<forall>c \<in> set (sseClients st). (c, Powerwall data) \<in> set (wire (broadcastUpdate env (Powerwall data) s4))"
    if allok: "\<forall>c \<in> set (sseClients st). write_ok env c"
  proof -
    have cs: "sseClients s4 = sseClients st"
      using checkAlerts_clients_ok [of s3 env data "cached_temps s3"] allok
      unfolding s4_def s3 by simp
    have "wire (broadcastUpdate env (Powerwall data) s4)
        = wire s4 @ map (\<lambda>c. (c, Powerwall data)) (sseClients st)"
      using broadcastUpdate_all_ok [of s4 env "Powerwall data"] allok cs by simp
    then show ?thesis by simp
  qed
  show ?thesis
    unfolding sp fst_conv snd_conv broadcastUpdate_fields a4 b4 p4 c4
    using w by simp
qed

lemma handlers_continue_after_sample_write_failure:
  assumes fetch: "fetchPowerwallData env (daily_baselines st) = (Some data, tbl)"
      and fail: "\<not> insertSample_ok env"
      and hist: "saveJSON_ok env HISTORY_FILE"
      and al: "saveJSON_ok env ALERTS_FILE"
  shows
    "(sseClients st \<noteq> [] \<longrightarrow>
        fst (poll_timer env st) = None
      \<and> power_samples (snd (poll_timer env st)) = power_samples st
      \<and> cached_powerwall (snd (poll_timer env st)) = Some data
      \<and> alerts (snd (poll_timer env st))
          = slice_last 100 (alerts st @ filter (\<lambda>a. alert_id a \<notin> alert_id ` set (alerts st))
                                          (newAlerts env (settings_alerts st) data (cached_temps st)))
      \<and> broadcasts (snd (poll_timer env st))
          = broadcasts st @ map Alert (filter (\<lambda>a. alert_id a \<notin> alert_id ` set (alerts st))
                                          (newAlerts env (settings_alerts st) data (cached_temps st)))
              @ [Powerwall data]
      \<and> ((\<forall>c \<in> set (sseClients st). write_ok env c) \<longrightarrow>
           (\<forall>c \<in> set (sseClients st). (c, Powerwall data) \<in> set (wire (snd (poll_timer env st))))))
     \<and> (fresh_cache env st = None \<longrightarrow>
        fst (get_api_powerwall env st) = Json data
      \<and> power_samples (snd (get_api_powerwall env st)) = power_samples st
      \<and> cached_powerwall (snd (get_api_powerwall env st)) = Some data
      \<and> alerts (snd (get_api_powerwall env st))
          = slice_last 100 (alerts st @ filter (\<lambda>a. alert_id a \<notin> alert_id ` set (alerts st))
                                          (newAlerts env (settings_alerts st) data (cached_temps st)))
      \<and> broadcasts (snd (get_api_powerwall env st))
          = broadcasts st @ map Alert (filter (\<lambda>a. alert_id a \<notin> alert_id ` set (alerts st))
                                          (newAlerts env (settings_alerts st) data (cached_temps st)))
              @ [Powerwall data]
      \<and> ((\<forall>c \<in> set (sseClients st). write_ok env c) \<longrightarrow>
           (\<forall>c \<in> set (sseClients st).
              (c, Powerwall data) \<in> set (wire (snd (get_api_powerwall env st))))))"
proof -
  define s0 where "s0 = st\<lparr>daily_baselines := tbl, cached_powerwall := Some data\<rparr>"
  define s1 where "s1 = st\<lparr>daily_baselines := tbl, cached_powerwall := Some data,
                           lastUpdate_powerwall := Some (clock_handler env)\<rparr>"
  have s0: "alerts s0 = alerts st" "broadcasts s0 = broadcasts st"
    "settings_alerts s0 = settings_alerts st" "cached_temps s0 = cached_temps st"
    "sseClients s0 = sseClients st" "power_samples s0 = power_samples st"
    "cached_powerwall s0 = Some data"
    by (simp_all add: s0_def)
  have s1: "alerts s1 = alerts st" "broadcasts s1 = broadcasts st"
    "settings_alerts s1 = settings_alerts st" "cached_temps s1 = cached_temps st"
    "sseClients s1 = sseClients st" "power_samples s1 = power_samples st"
    "cached_powerwall s1 = Some data"
    by (simp_all add: s1_def)
  note timer_run = store_and_publish_sample_write_fails [OF fail hist al, of data s0, unfolded s0]
  note route_run = store_and_publish_sample_write_fails [OF fail hist al, of data s1, unfolded s1]
  have timer: "poll_timer env st = store_and_publish env data s0" if "sseClients st \<noteq> []"
    using that fetch by (simp add: poll_timer_def s0_def)
  have "fst (store_and_publish env data s1) = None"
    using route_run by blast
  then obtain st' where sp: "store_and_publish env data s1 = (None, st')"
    by (metis prod.collapse)
  have "get_api_powerwall env st = (Json data, st')" if "fresh_cache env st = None"
    using that fetch sp unfolding s1_def by (simp add: get_api_powerwall_def)
  moreover have "st' = snd (store_and_publish env data s1)"
    using sp by simp
  ultimately have route:
    "get_api_powerwall env st = (Json data, snd (store_and_publish env data s1))"
    if "fresh_cache env st = None"
    using that by simp
  show ?thesis
  proof (intro conjI impI)
    assume subs: "sseClients st \<noteq> []"
    note t = timer [OF subs]
    show "fst (poll_timer env st) = None"
      unfolding t using timer_run by blast
    show "power_samples (snd (poll_timer env st)) = power_samples st"
      unfolding t using timer_run by blast
    show "cached_powerwall (snd (poll_timer env st)) = Some data"
      unfolding t using timer_run by blast
    show "alerts (snd (poll_timer env st))
          = slice_last 100 (alerts st @ filter (\<lambda>a. alert_id a \<notin> alert_id ` set (alerts st))
                                          (newAlerts env (settings_alerts st) data (cached_temps st)))"
      unfolding t using timer_run by blast
    show "broadcasts (snd (poll_timer env st))
          = broadcasts st @ map Alert (filter (\<lambda>a. alert_id a \<notin> alert_id ` set (alerts st))
                                          (newAlerts env (settings_alerts st) data (cached_temps st)))
              @ [Powerwall data]"
      unfolding t using timer_run by blast
    show "\<forall>c \<in> set (sseClients st). (c, Powerwall data) \<in> set (wire (snd (poll_timer env st)))"
      if "\<forall>c \<in> set (sseClients st). write_ok env c"
      unfolding t using timer_run that by blast
  next
    assume nf: "fresh_cache env st = None"
    note g = route [OF nf]
    show "fst (get_api_powerwall env st) = Json data"
      unfolding g by simp
    show "power_samples (snd (get_api_powerwall env st)) = power_samples st"
      unfolding g snd_conv using route_run by blast
    show "cached_powerwall (snd (get_api_powerwall env st)) = Some data"
      unfolding g snd_conv using route_run by blast
    show "alerts (snd (get_api_powerwall env st))
          = slice_last 100 (alerts st @ filter (\<lambda>a. alert_id a \<notin> alert_id ` set (alerts st))
                                          (newAlerts env (settings_alerts st) data (cached_temps st)))"
      unfolding g snd_conv using route_run by blast
    show "broadcasts (snd (get_api_powerwall env st))
          = broadcasts st @ map Alert (filter (\<lambda>a. alert_id a \<notin> alert_id ` set (alerts st))
                                          (newAlerts env (settings_alerts st) data (cached_temps st)))
              @ [Powerwall data]"
      unfolding g snd_conv using route_run by blast
    show "\<forall>c \<in> set (sseClients st).
              (c, Powerwall data) \<in> set (wire (snd (get_api_powerwall env st)))"
      if "\<forall>c \<in> set (sseClients st). write_ok env c"
      unfolding g snd_conv using route_run that by blast
  qed
qed

lemma broadcastUpdate_power_samples:
  "broadcastUpdate env ev (s\<lparr>power_samples := x\<rparr>) = (broadcastUpdate env ev s)\<lparr>power_samples := x\<rparr>"
  by (simp add: broadcastUpdate_def split: prod.splits)

lemma add_new_alerts_power_samples:
  "add_new_alerts env new (s\<lparr>power_samples := x\<rparr>) = (add_new_alerts env new s)\<lparr>power_samples := x\<rparr>"
proof (induction new arbitrary: s)
  case Nil
  then show ?case by simp
next
  case (Cons a rest)
  have "broadcastUpdate env (Alert a) (s\<lparr>power_samples := x, alerts := alerts s @ [a]\<rparr>)
      = (broadcastUpdate env (Alert a) (s\<lparr>alerts := alerts s @ [a]\<rparr>))\<lparr>power_samples := x\<rparr>"
    by (simp add: broadcastUpdate_def split: prod.splits)
  then show ?case
    using Cons.IH by simp
qed

lemma checkAlerts_power_samples:
  "checkAlerts env pw t (s\<lparr>power_samples := x\<rparr>)
     = (fst (checkAlerts env pw t s), (snd (checkAlerts env pw t s))\<lparr>power_samples := x\<rparr>)"
  by (simp add: checkAlerts_def Let_def add_new_alerts_power_samples)

lemma newAlerts_insertSample_ok:
  "newAlerts (env\<lparr>insertSample_ok := b\<rparr>) se pw t = newAlerts env se pw t"
  by (cases t) (simp_all add: newAlerts_def)

lemma insertSample_ok_irrelevant:
  "broadcastUpdate (env\<lparr>insertSample_ok := b\<rparr>) ev s = broadcastUpdate env ev s"
  "fetchPowerwallData (env\<lparr>insertSample_ok := b\<rparr>) tbl = fetchPowerwallData env tbl"
  "fresh_cache (env\<lparr>insertSample_ok := b\<rparr>) s = fresh_cache env s"
  by (simp_all add: broadcastUpdate_def fetchPowerwallData_def fresh_cache_def Let_def
        split: option.splits sum.splits prod.splits)

lemma add_new_alerts_insertSample_ok:
  "add_new_alerts (env\<lparr>insertSample_ok := b\<rparr>) new s = add_new_alerts env new s"
  by (induction new arbitrary: s) (simp_all add: insertSample_ok_irrelevant)

lemma checkAlerts_insertSample_ok:
  "checkAlerts (env\<lparr>insertSample_ok := b\<rparr>) pw t s = checkAlerts env pw t s"
  by (simp add: checkAlerts_def add_new_alerts_insertSample_ok newAlerts_insertSample_ok)

lemma store_and_publish_sample_write_only:
  assumes "\<not> insertSample_ok env"
  shows "store_and_publish env data s
     = (fst (store_and_publish (env\<lparr>insertSample_ok := True\<rparr>) data s),
        (snd (store_and_publish (env\<lparr>insertSample_ok := True\<rparr>) data s))
          \<lparr>power_samples := power_samples s\<rparr>)"
proof (cases "saveJSON_ok env HISTORY_FILE")
  case False
  then show ?thesis
    by (simp add: store_and_publish_def Let_def)
next
  case True
  define s2 where "s2 =
     s\<lparr>history := filter (\<lambda>h. h_timestamp h > clock_cutoff env - 24 * 60 * 60 * 1000)
                    (history s @
                      [\<lparr>h_timestamp = pw_timestamp data, h_grid = pw_grid_power data,
                        h_battery = pw_battery_power data, h_solar = pw_solar_power data,
                        h_load = pw_load_power data, h_soe = pw_battery_soe data\<rparr>]),
        history_file := filter (\<lambda>h. h_timestamp h > clock_cutoff env - 24 * 60 * 60 * 1000)
                    (history s @
                      [\<lparr>h_timestamp = pw_timestamp data, h_grid = pw_grid_power data,
                        h_battery = pw_battery_power data, h_solar = pw_solar_power data,
                        h_load = pw_load_power data, h_soe = pw_battery_soe data\<rparr>])\<rparr>"
  define row where "row =
     \<lparr>ts = pw_timestamp data, solar_w = pw_solar_power data,
      battery_w = pw_battery_power data, grid_w = pw_grid_power data,
      load_w = pw_load_power data, battery_soe = pw_battery_soe data,
      battery_status = pw_battery_status data\<rparr>"
  obtain e4 s4 where c: "checkAlerts env data (cached_temps s2) s2 = (e4, s4)"
    by (cases "checkAlerts env data (cached_temps s2) s2")
  have ps2: "power_samples s2 = power_samples s" "cached_temps s2 = cached_temps s"
    by (simp_all add: s2_def)
  have ps4: "power_samples s4 = power_samples s"
    using checkAlerts_frame [of env data "cached_temps s2" s2] c ps2 by simp
  have fail_run: "store_and_publish env data s =
      (case e4 of Some e \<Rightarrow> (Some e, s4) | None \<Rightarrow> (None, broadcastUpdate env (Powerwall data) s4))"
    using assms True c unfolding s2_def
    by (simp add: store_and_publish_def Let_def split: option.splits)
  have c': "checkAlerts (env\<lparr>insertSample_ok := True\<rparr>) data (cached_temps s2)
              (s2\<lparr>power_samples := power_samples s2 @ [row]\<rparr>)
            = (e4, s4\<lparr>power_samples := power_samples s2 @ [row]\<rparr>)"
    by (simp add: checkAlerts_insertSample_ok checkAlerts_power_samples c)
  have ok_run: "store_and_publish (env\<lparr>insertSample_ok := True\<rparr>) data s =
      (case e4 of
         Some e \<Rightarrow> (Some e, s4\<lparr>power_samples := power_samples s2 @ [row]\<rparr>)
       | None \<Rightarrow> (None, (broadcastUpdate env (Powerwall data) s4)
                          \<lparr>power_samples := power_samples s2 @ [row]\<rparr>))"
    using True c' unfolding s2_def row_def
    by (simp add: store_and_publish_def Let_def insertSample_ok_irrelevant
          broadcastUpdate_power_samples split: option.splits)
  have "s4\<lparr>power_samples := power_samples s\<rparr> = s4"
    using ps4 by simp
  moreover have "(broadcastUpdate env (Powerwall data) s4)\<lparr>power_samples := power_samples s\<rparr>
      = broadcastUpdate env (Powerwall data) s4"
    unfolding ps4 [symmetric] by simp
  ultimately show ?thesis
    unfolding fail_run ok_run by (simp split: option.splits)
qed

lemma poll_timer_sample_write_only:
  assumes "\<not> insertSample_ok env"
  shows "poll_timer env st
     = (fst (poll_timer (env\<lparr>insertSample_ok := True\<rparr>) st),
        (snd (poll_timer (env\<lparr>insertSample_ok := True\<rparr>) st))
          \<lparr>power_samples := power_samples st\<rparr>)"
proof (cases "sseClients st = []")
  case True
  then show ?thesis by (simp add: poll_timer_def)
next
  case False
  obtain r tbl where f: "fetchPowerwallData env (daily_baselines st) = (r, tbl)"
    by (cases "fetchPowerwallData env (daily_baselines st)")
  show ?thesis
  proof (cases r)
    case None
    then show ?thesis
      using False f by (simp add: poll_timer_def insertSample_ok_irrelevant)
  next
    case (Some data)
    define s0 where "s0 = st\<lparr>daily_baselines := tbl, cached_powerwall := Some data\<rparr>"
    have ps: "power_samples s0 = power_samples st"
      by (simp add: s0_def)
    have "poll_timer env st = store_and_publish env data s0"
      and "poll_timer (env\<lparr>insertSample_ok := True\<rparr>) st
            = store_and_publish (env\<lparr>insertSample_ok := True\<rparr>) data s0"
      using False f Some by (simp_all add: poll_timer_def insertSample_ok_irrelevant s0_def)
    then show ?thesis
      using store_and_publish_sample_write_only [OF assms, of data s0] ps by simp
  qed
qed

lemma get_api_powerwall_sample_write_only:
  assumes "\<not> insertSample_ok env"
  shows "get_api_powerwall env st
     = (fst (get_api_powerwall (env\<lparr>insertSample_ok := True\<rparr>) st),
        (snd (get_api_powerwall (env\<lparr>insertSample_ok := True\<rparr>) st))
          \<lparr>power_samples := power_samples st\<rparr>)"
proof (cases "fresh_cache env st")
  case (Some cached)
  then show ?thesis by (simp add: get_api_powerwall_def insertSample_ok_irrelevant)
next
  case None
  obtain r tbl where f: "fetchPowerwallData env (daily_baselines st) = (r, tbl)"
    by (cases "fetchPowerwallData env (daily_baselines st)")
  show ?thesis
  proof (cases r)
    case nr: None
    then show ?thesis
      using None f by (simp add: get_api_powerwall_def insertSample_ok_irrelevant)
  next
    case (Some data)
    define s1 where "s1 = st\<lparr>daily_baselines := tbl, cached_powerwall := Some data,
                             lastUpdate_powerwall := Some (clock_handler env)\<rparr>"
    have ps: "power_samples s1 = power_samples st"
      by (simp add: s1_def)
    obtain e R where ok: "store_and_publish (env\<lparr>insertSample_ok := True\<rparr>) data s1 = (e, R)"
      by (cases "store_and_publish (env\<lparr>insertSample_ok := True\<rparr>) data s1")
    have bad: "store_and_publish env data s1 = (e, R\<lparr>power_samples := power_samples st\<rparr>)"
      using store_and_publish_sample_write_only [OF assms, of data s1] ok ps by simp
    have "get_api_powerwall env st
        = (case e of Some x \<Rightarrow> Status500 | None \<Rightarrow> Json data,
           R\<lparr>power_samples := power_samples st\<rparr>)"
      using None f Some bad unfolding s1_def
      by (simp add: get_api_powerwall_def split: option.splits)
    moreover have "get_api_powerwall (env\<lparr>insertSample_ok := True\<rparr>) st
        = (case e of Some x \<Rightarrow> Status500 | None \<Rightarrow> Json data, R)"
      using None f Some ok unfolding s1_def
      by (simp add: get_api_powerwall_def insertSample_ok_irrelevant split: option.splits)
    ultimately show ?thesis by simp
  qed
qed

text \<open>
  Claim C8. Suppose the insert into \<open>power_samples\<close> throws during a poll. Then both
  handlers end as they would have ended with the insert succeeding, with the same result
  and the same state but for the sample table, which is as before: the failure of the
  sample write changes nothing else. In particular, when the poll has fetched a reading
  and the two JSON snapshots are written, the 10-second timer (with a subscriber
  connected) returns without an error and the route (its cache not fresh) answers with the
  reading; in both the reading is cached, the alerts have been evaluated on it (the list
  holds the newly raised candidates), and the broadcast log ends with the raised alerts
  followed by the reading. When every subscriber accepts its writes, each subscriber has
  been sent the reading.
\<close>

theorem sample_write_failure_does_not_abort:
  assumes fail: "\<not> insertSample_ok env"
  shows
    "poll_timer env st
       = (fst (poll_timer (env\<lparr>insertSample_ok := True\<rparr>) st),
          (snd (poll_timer (env\<lparr>insertSample_ok := True\<rparr>) st))
            \<lparr>power_samples := power_samples st\<rparr>)
     \<and> get_api_powerwall env st
       = (fst (get_api_powerwall (env\<lparr>insertSample_ok := True\<rparr>) st),
          (snd (get_api_powerwall (env\<lparr>insertSample_ok := True\<rparr>) st))
            \<lparr>power_samples := power_samples st\<rparr>)
     \<and> (fetchPowerwallData env (daily_baselines st) = (Some data, tbl)
          \<and> saveJSON_ok env HISTORY_FILE \<and> saveJSON_ok env ALERTS_FILE \<longrightarrow>
        (sseClients st \<noteq> [] \<longrightarrow>
           fst (poll_timer env st) = None
         \<and> power_samples (snd (poll_timer env st)) = power_samples st
         \<and> cached_powerwall (snd (poll_timer env st)) = Some data
         \<and> alerts (snd (poll_timer env st))
             = slice_last 100 (alerts st @ filter (\<lambda>a. alert_id a \<notin> alert_id ` set (alerts st))
                                             (newAlerts env (settings_alerts st) data (cached_temps st)))
         \<and> broadcasts (snd (poll_timer env st))
             = broadcasts st @ map Alert (filter (\<lambda>a. alert_id a \<notin> alert_id ` set (alerts st))
                                             (newAlerts env (settings_alerts st) data (cached_temps st)))
                 @ [Powerwall data]
         \<and> ((\<forall>c \<in> set (sseClients st). write_ok env c) \<longrightarrow>
              (\<forall>c \<in> set (sseClients st). (c, Powerwall data) \<in> set (wire (snd (poll_timer env st))))))
        \<and> (fresh_cache env st = None \<longrightarrow>
           fst (get_api_powerwall env st) = Json data
         \<and> power_samples (snd (get_api_powerwall env st)) = power_samples st
         \<and> cached_powerwall (snd (get_api_powerwall env st)) = Some data
         \<and> alerts (snd (get_api_powerwall env st))
             = slice_last 100 (alerts st @ filter (\<lambda>a. alert_id a \<notin> alert_id ` set (alerts st))
                                             (newAlerts env (settings_alerts st) data (cached_temps st)))
         \<and> broadcasts (snd (get_api_powerwall env st))
             = broadcasts st @ map Alert (filter (\<lambda>a. alert_id a \<notin> alert_id ` set (alerts st))
                                             (newAlerts env (settings_alerts st) data (cached_temps st)))
                 @ [Powerwall data]
         \<and> ((\<forall>c \<in> set (sseClients st). write_ok env c) \<longrightarrow>
              (\<forall>c \<in> set (sseClients st).
                 (c, Powerwall data) \<in> set (wire (snd (get_api_powerwall env st)))))))"
  using poll_timer_sample_write_only [OF fail, of st]
    get_api_powerwall_sample_write_only [OF fail, of st]
    handlers_continue_after_sample_write_failure [OF _ fail, of st data tbl]
  by blast

lemma example_fetch:
  "fetchPowerwallData (example_env\<lparr>insertSample_ok := False\<rparr>) []
     = (Some example_reading,
        [baseline_values ''2026-11-03''
           \<lparr>cumSolar = 1500000, cumBatteryOut = 0, cumBatteryIn = 0,
            cumGridIn = 700000, cumGridOut = 0, cumLoad = 2800000\<rparr>])"
proof -
  have r: "Math_round (1 / 5) = 0" "Math_round (97 / 10) = 10" "Math_round (4952 / 5) = 990"
    "Math_round (9801 / 10) = 980" "Math_round (100 / 99) = 1"
    unfolding Math_round_def by linarith+
  have sp: "selfPoweredPercent 980 990 = 1"
    using r(5) by (simp add: selfPoweredPercent_def)
  show ?thesis
    by (simp add: fetchPowerwallData_def example_env_def example_reading_def r sp Let_def
          track_baseline_def getBaseline_get_def insertBaseline_run_def baseline_values_def
          dayDelta_def or_zero_def dailyBreakdown_def dailySelfPowered_def batteryStatus_def)
qed

theorem sample_write_failure_does_not_abort_witness:
  "fst (fetchPowerwallData (example_env\<lparr>insertSample_ok := False\<rparr>)
          (daily_baselines (initial_server\<lparr>sseClients := [''A'', ''B'']\<rparr>)))
     = Some example_reading
   \<and> \<not> insertSample_ok (example_env\<lparr>insertSample_ok := False\<rparr>)
   \<and> fst (poll_timer (example_env\<lparr>insertSample_ok := False\<rparr>)
             (initial_server\<lparr>sseClients := [''A'', ''B'']\<rparr>)) = None
   \<and> power_samples (snd (poll_timer (example_env\<lparr>insertSample_ok := False\<rparr>)
             (initial_server\<lparr>sseClients := [''A'', ''B'']\<rparr>))) = []
   \<and> (''B'', Powerwall example_reading)
       \<in> set (wire (snd (poll_timer (example_env\<lparr>insertSample_ok := False\<rparr>)
                          (initial_server\<lparr>sseClients := [''A'', ''B'']\<rparr>))))
   \<and> fst (get_api_powerwall (example_env\<lparr>insertSample_ok := False\<rparr>)
             (initial_server\<lparr>sseClients := [''A'', ''B'']\<rparr>)) = Json example_reading"
proof -
  let ?env = "example_env\<lparr>insertSample_ok := False\<rparr>"
  let ?st = "(initial_server :: string server)\<lparr>sseClients := [''A'', ''B'']\<rparr>"
  have f: "fetchPowerwallData ?env (daily_baselines ?st)
     = (Some example_reading,
        [baseline_values ''2026-11-03''
           \<lparr>cumSolar = 1500000, cumBatteryOut = 0, cumBatteryIn = 0,
            cumGridIn = 700000, cumGridOut = 0, cumLoad = 2800000\<rparr>])"
    using example_fetch by (simp add: initial_server_def)
  have fail: "\<not> insertSample_ok ?env"
    by simp
  have hist: "saveJSON_ok ?env HISTORY_FILE" and al: "saveJSON_ok ?env ALERTS_FILE"
    by (simp_all add: example_env_def)
  have subs: "sseClients ?st \<noteq> []"
    and ok: "\<forall>c \<in> set (sseClients ?st). write_ok ?env c"
    and nf: "fresh_cache ?env ?st = None"
    and ps: "power_samples ?st = []"
    and b: "''B'' \<in> set (sseClients ?st)"
    by (simp_all add: example_env_def initial_server_def fresh_cache_def)
  note main = sample_write_failure_does_not_abort
                [OF fail, THEN conjunct2, THEN conjunct2, THEN mp, OF conjI [OF f conjI [OF hist al]]]
  note timer = main [THEN conjunct1, THEN mp, OF subs]
  note route = main [THEN conjunct2, THEN mp, OF nf]
  have "fst (poll_timer ?env ?st) = None"
    by (rule timer [THEN conjunct1])
  moreover have "power_samples (snd (poll_timer ?env ?st)) = []"
    using timer [THEN conjunct2, THEN conjunct1] ps by simp
  moreover have "(''B'', Powerwall example_reading) \<in> set (wire (snd (poll_timer ?env ?st)))"
    by (rule timer [THEN conjunct2, THEN conjunct2, THEN conjunct2, THEN conjunct2,
                    THEN conjunct2, THEN mp, OF ok, THEN bspec, OF b])
  moreover have "fst (get_api_powerwall ?env ?st) = Json example_reading"
    by (rule route [THEN conjunct1])
  ultimately show ?thesis
    using f fail by simp
qed

end
